theory Spec2Isabelle
  imports Main "HOL-Library.AList" "HOL-Library.List_Lexorder" "HOL-Library.Char_ord"
begin

section \<open>Python values and library functions used by \<^verbatim>\<open>youtube.py\<close>\<close>

text \<open>
  Exceptions the two flows can raise. \<open>HttpError status uri reason\<close> is
  googleapiclient's \<^verbatim>\<open>HttpError\<close>: the HTTP status of the response, the URL that
  was requested and the reason the server gave. \<open>OtherError\<close> is any exception of the
  API client that is not an \<^verbatim>\<open>HttpError\<close>. The others are Python's own.
\<close>

datatype exn =
    HttpError nat string string
  | OtherError string
  | TypeError
  | IndexError
  | KeyError string
  | AttributeError

text \<open>JSON values, as \<^verbatim>\<open>json\<close> and the API client produce them: a dict keeps its
  insertion order, so it is an association list.\<close>

datatype json =
    JNull
  | JBool bool
  | JNum int
  | JStr string
  | JArr "json list"
  | JObj "(string \<times> json) list"

subsection \<open>Strings\<close>

text \<open>\<^verbatim>\<open>s.rstrip(chars)\<close>: drop every trailing character that occurs in \<open>chars\<close>.\<close>

definition rstrip :: "string \<Rightarrow> string \<Rightarrow> string" where
  "rstrip chars s = rev (dropWhile (\<lambda>c. c \<in> set chars) (rev s))"

text \<open>\<^verbatim>\<open>s.replace(old, new)\<close> for one-character \<open>old\<close> and \<open>new\<close>.\<close>

definition replace_char :: "char \<Rightarrow> char \<Rightarrow> string \<Rightarrow> string" where
  "replace_char old new s = map (\<lambda>c. if c = old then new else c) s"

text \<open>\<^verbatim>\<open>sub in s\<close> on strings: \<open>sub\<close> occurs in \<open>s\<close> as a contiguous block.\<close>

fun starts_with :: "string \<Rightarrow> string \<Rightarrow> bool" where
  "starts_with [] s = True"
| "starts_with (p # ps) [] = False"
| "starts_with (p # ps) (c # cs) = (p = c \<and> starts_with ps cs)"

fun contains :: "string \<Rightarrow> string \<Rightarrow> bool" where
  "contains sub [] = (sub = [])"
| "contains sub (c # cs) = (starts_with sub (c # cs) \<or> contains sub cs)"

text \<open>Line 175: \<^verbatim>\<open>item['snippet']['publishedAt'].rstrip('Z').replace('T', ' ')\<close>.\<close>

definition normalize_publishedAt :: "string \<Rightarrow> string" where
  "normalize_publishedAt s = replace_char (CHR ''T'') (CHR '' '') (rstrip ''Z'' s)"

subsection \<open>Numbers and times as text\<close>

definition digit_char :: "nat \<Rightarrow> char" where
  "digit_char d = ''0123456789'' ! d"

definition is_digit :: "char \<Rightarrow> bool" where
  "is_digit c = (c \<in> set ''0123456789'')"

text \<open>\<^verbatim>\<open>str(n)\<close> and \<^verbatim>\<open>"{}".format(n)\<close> for a non-negative integer.\<close>

fun dec :: "nat \<Rightarrow> string" where
  "dec n = (if n < 10 then [digit_char n] else dec (n div 10) @ [digit_char (n mod 10)])"

declare dec.simps [simp del]

text \<open>
  \<^verbatim>\<open>str(e)\<close> for an \<^verbatim>\<open>HttpError\<close>, as googleapiclient prints it:
  \<^verbatim>\<open><HttpError 500 when requesting https://... returned "Backend Error">\<close>, and
  without the URL when the error has none. The text holds the status and the whole URL
  of the request.
\<close>

definition str_HttpError :: "nat \<Rightarrow> string \<Rightarrow> string \<Rightarrow> string" where
  "str_HttpError status uri reason =
     (if uri \<noteq> []
      then ''<HttpError '' @ dec status @ '' when requesting '' @ uri @ '' returned '' @
           [CHR 0x22] @ reason @ [CHR 0x22] @ ''>''
      else ''<HttpError '' @ dec status @ '' '' @ [CHR 0x22] @ reason @ [CHR 0x22] @ ''>'')"

text \<open>Zero-padding to a minimal width, as the numeric \<^verbatim>\<open>strftime\<close> directives do.\<close>

definition zpad :: "nat \<Rightarrow> string \<Rightarrow> string" where
  "zpad w s = replicate (w - length s) (CHR ''0'') @ s"

text \<open>A \<^verbatim>\<open>datetime\<close> object, as \<^verbatim>\<open>datetime.utcnow()\<close> returns it.\<close>

record datetime =
  year :: nat
  month :: nat
  day :: nat
  hour :: nat
  minute :: nat
  second :: nat
  microsecond :: nat

text \<open>
  The field ranges of a \<^verbatim>\<open>datetime\<close>. Python allows years from 1; below 1000 the
  C libraries disagree on whether \<^verbatim>\<open>%Y\<close> pads with zeros, so the range starts at
  1000, where they agree (the clock of a run is far above it).
\<close>

definition valid_datetime :: "datetime \<Rightarrow> bool" where
  "valid_datetime t =
     (1000 \<le> year t \<and> year t \<le> 9999 \<and> 1 \<le> month t \<and> month t \<le> 12 \<and>
      1 \<le> day t \<and> day t \<le> 31 \<and> hour t < 24 \<and> minute t < 60 \<and> second t < 60 \<and>
      microsecond t < 1000000)"

text \<open>The \<^verbatim>\<open>strftime\<close> directives the source uses; an unknown one is left as it is.\<close>

definition directive :: "datetime \<Rightarrow> char \<Rightarrow> string" where
  "directive t c =
     (if c = CHR ''Y'' then zpad 4 (dec (year t))
      else if c = CHR ''m'' then zpad 2 (dec (month t))
      else if c = CHR ''d'' then zpad 2 (dec (day t))
      else if c = CHR ''H'' then zpad 2 (dec (hour t))
      else if c = CHR ''M'' then zpad 2 (dec (minute t))
      else if c = CHR ''S'' then zpad 2 (dec (second t))
      else if c = CHR ''f'' then zpad 6 (dec (microsecond t))
      else [CHR ''%'', c])"

fun strftime :: "datetime \<Rightarrow> string \<Rightarrow> string" where
  "strftime t [] = []"
| "strftime t [c] = [c]"
| "strftime t (c # d # fmt) =
     (if c = CHR ''%'' then directive t d @ strftime t fmt else c # strftime t (d # fmt))"

text \<open>Lines 176 and 241:
  \<^verbatim>\<open>datetime.utcnow().strftime("%Y-%m-%d %H:%M:%S.%f")[:-3]\<close>.\<close>

definition retrieved_at :: "datetime \<Rightarrow> string" where
  "retrieved_at now =
     (let s = strftime now ''%Y-%m-%d %H:%M:%S.%f'' in take (length s - 3) s)"

text \<open>Lines 183 and 248: \<^verbatim>\<open>datetime.utcnow().strftime("%Y-%m-%d")\<close>.\<close>

definition creation_date :: "datetime \<Rightarrow> string" where
  "creation_date now = strftime now ''%Y-%m-%d''"

text \<open>Line 183:
  \<^verbatim>\<open>"youtube_video_snippet/{}-{}.json.bz2".format(<date>, num_videos)\<close>.\<close>

definition video_snippet_key :: "string \<Rightarrow> nat \<Rightarrow> string" where
  "video_snippet_key date n = ''youtube_video_snippet/'' @ date @ ''-'' @ dec n @ ''.json.bz2''"

text \<open>Line 248:
  \<^verbatim>\<open>"youtube_channel_stats/creation_date={}/{}.json.bz2".format(<date>, num_channels)\<close>.\<close>

definition channel_stats_key :: "string \<Rightarrow> nat \<Rightarrow> string" where
  "channel_stats_key date n =
     ''youtube_channel_stats/creation_date='' @ date @ ''/'' @ dec n @ ''.json.bz2''"

text \<open>
  The timestamp patterns of the specification: in a pattern the letters
  \<^verbatim>\<open>Y M D H S m\<close> stand for one decimal digit each, every other character for itself.
\<close>

definition matches :: "string \<Rightarrow> string \<Rightarrow> bool" where
  "matches pat s =
     list_all2 (\<lambda>p c. if p \<in> set ''YMDHSm'' then is_digit c else c = p) pat s"

subsection \<open>Dictionaries and lists\<close>

text \<open>\<^verbatim>\<open>xs[i]\<close> on a list, for \<open>i \<ge> 0\<close>.\<close>

definition list_getitem :: "'a list \<Rightarrow> nat \<Rightarrow> exn + 'a" where
  "list_getitem xs i = (if i < length xs then Inr (xs ! i) else Inl IndexError)"

text \<open>\<^verbatim>\<open>xs[k]\<close> on a list with a string \<open>k\<close>: Python raises \<^verbatim>\<open>TypeError\<close> (list
  indices must be integers or slices).\<close>

definition list_getitem_str :: "'a list \<Rightarrow> string \<Rightarrow> exn + 'a list" where
  "list_getitem_str xs k = Inl TypeError"

text \<open>\<^verbatim>\<open>v[k]\<close> and \<^verbatim>\<open>v[k] = x\<close> with a string \<open>k\<close>, on a JSON value.\<close>

definition getitem :: "json \<Rightarrow> string \<Rightarrow> exn + json" where
  "getitem v k =
     (case v of
        JObj d \<Rightarrow> (case map_of d k of None \<Rightarrow> Inl (KeyError k) | Some x \<Rightarrow> Inr x)
      | _ \<Rightarrow> Inl TypeError)"

definition setitem :: "json \<Rightarrow> string \<Rightarrow> json \<Rightarrow> exn + json" where
  "setitem v k x =
     (case v of JObj d \<Rightarrow> Inr (JObj (AList.update k x d)) | _ \<Rightarrow> Inl TypeError)"

text \<open>\<^verbatim>\<open>for item in v\<close>: a list gives its elements, a dict its keys, a string its
  characters; nothing else can be iterated.\<close>

definition iterate :: "json \<Rightarrow> exn + json list" where
  "iterate v =
     (case v of
        JArr xs \<Rightarrow> Inr xs
      | JObj d \<Rightarrow> Inr (map (\<lambda>kv. JStr (fst kv)) d)
      | JStr s \<Rightarrow> Inr (map (\<lambda>c. JStr [c]) s)
      | _ \<Rightarrow> Inl TypeError)"

text \<open>Lines 174 and 240: \<^verbatim>\<open>response.get('items', [])\<close>, then iterated.\<close>

definition response_items :: "json \<Rightarrow> exn + json list" where
  "response_items response =
     (case response of
        JObj d \<Rightarrow> (case map_of d ''items'' of None \<Rightarrow> Inr [] | Some v \<Rightarrow> iterate v)
      | _ \<Rightarrow> Inl AttributeError)"

section \<open>Normalizing one item\<close>

text \<open>Line 175: the right side is evaluated first, then the target
  \<^verbatim>\<open>item['snippet']\<close>, whose entry is assigned in place.\<close>

definition rewrite_publishedAt :: "json \<Rightarrow> exn + json" where
  "rewrite_publishedAt item =
     (case getitem item ''snippet'' of
        Inl e \<Rightarrow> Inl e
      | Inr snippet \<Rightarrow>
          (case getitem snippet ''publishedAt'' of
             Inl e \<Rightarrow> Inl e
           | Inr (JStr s) \<Rightarrow>
               (case setitem snippet ''publishedAt'' (JStr (normalize_publishedAt s)) of
                  Inl e \<Rightarrow> Inl e
                | Inr snippet' \<Rightarrow> setitem item ''snippet'' snippet')
           | Inr _ \<Rightarrow> Inl AttributeError))"

text \<open>Lines 176 and 241: \<^verbatim>\<open>item['retrieved_at'] = ...\<close>.\<close>

definition stamp_retrieved_at :: "datetime \<Rightarrow> json \<Rightarrow> exn + json" where
  "stamp_retrieved_at now item = setitem item ''retrieved_at'' (JStr (retrieved_at now))"

section \<open>The collaborators: catalogue, metadata API, clock\<close>

text \<open>
  The SQL texts of lines 13 to 109 and 254 to 256. A query is the list of the texts
  concatenated to make it; \<open>CREATE_\<dots>_JSON b\<close> is the text formatted with
  \<^verbatim>\<open>s3_bucket=b\<close>.
\<close>

datatype sql =
    SELECT_YOUTUBE_VIDEOS
  | SELECT_COUNT_YOUTUBE_VIDEOS
  | TABLE_YOUTUBE_VIDEO_SNIPPET_EXISTS
  | CREATE_VIDEO_SNIPPET_JSON string
  | SELECT_DISTINCT_CHANNEL
  | SELECT_COUNT_DISTINCT_CHANNEL
  | CREATE_CHANNEL_STATS_JSON string
  | DROP_TABLE_IF_EXISTS string
  | MSCK_REPAIR_TABLE string

text \<open>What a call of the metadata API does: return a response or raise.\<close>

datatype outcome = Returns json | Raises exn

text \<open>
  Everything outside the process. The catalogue is given by its columns:
  \<open>validated_url_v\<close> is \<^verbatim>\<open>url_extract_parameter(validated_url, 'v')\<close> over the rows
  of \<^verbatim>\<open>validated_url\<close> whose host is \<^verbatim>\<open>www.youtube.com\<close> (one entry per row),
  \<open>snippet_id\<close> and \<open>snippet_channelId\<close> are the columns \<^verbatim>\<open>id\<close> and
  \<^verbatim>\<open>snippet.channelId\<close> of \<^verbatim>\<open>youtube_video_snippet\<close>, \<open>channel_stats_id\<close> is
  the column \<^verbatim>\<open>id\<close> of \<^verbatim>\<open>youtube_channel_stats\<close>, \<open>tables\<close> the names of the
  tables that exist. Identifiers are strings: SQL's \<^verbatim>\<open>NULL\<close> is not modelled.
  \<open>videos_list n key id\<close> is what \<^verbatim>\<open>videos().list(part="snippet", id=id).execute()\<close>
  does on a client built with developer key \<open>key\<close> when \<open>n\<close> API requests came
  before it; \<open>channels_list\<close> likewise. \<open>utcnow n\<close> is what the clock shows at its
  \<open>n\<close>-th reading.
\<close>

record env =
  tables :: "string list"
  validated_url_v :: "string list"
  snippet_id :: "string list"
  snippet_channelId :: "string list"
  channel_stats_id :: "string list"
  videos_list :: "nat \<Rightarrow> string \<Rightarrow> string \<Rightarrow> outcome"
  channels_list :: "nat \<Rightarrow> string \<Rightarrow> string \<Rightarrow> outcome"
  utcnow :: "nat \<Rightarrow> datetime"

text \<open>\<^verbatim>\<open>AthenaDatabase.table_exists\<close>.\<close>

definition table_exists :: "env \<Rightarrow> string \<Rightarrow> bool" where
  "table_exists env name = (name \<in> set (tables env))"

text \<open>The rows of the queries the source sends with \<^verbatim>\<open>query_athena_and_download\<close>:
  \<^verbatim>\<open>select distinct\<close>, with the \<^verbatim>\<open>not in\<close> clause when it was appended, and
  \<^verbatim>\<open>order by channel_id\<close> for the channels. Without \<^verbatim>\<open>order by\<close> the engine
  promises no order; the rows then come as \<open>remdups\<close> leaves them.\<close>

fun query_rows :: "env \<Rightarrow> sql list \<Rightarrow> string list" where
  "query_rows env [SELECT_YOUTUBE_VIDEOS] = remdups (validated_url_v env)"
| "query_rows env [SELECT_YOUTUBE_VIDEOS, TABLE_YOUTUBE_VIDEO_SNIPPET_EXISTS] =
     remdups (filter (\<lambda>v. v \<notin> set (snippet_id env)) (validated_url_v env))"
| "query_rows env [SELECT_DISTINCT_CHANNEL] = sort (remdups (snippet_channelId env))"
| "query_rows env q = []"

text \<open>The number the \<^verbatim>\<open>count(distinct \<dots>)\<close> queries return.\<close>

fun query_count :: "env \<Rightarrow> sql list \<Rightarrow> nat" where
  "query_count env [SELECT_COUNT_YOUTUBE_VIDEOS] = card (set (validated_url_v env))"
| "query_count env [SELECT_COUNT_YOUTUBE_VIDEOS, TABLE_YOUTUBE_VIDEO_SNIPPET_EXISTS] =
     card (set (filter (\<lambda>v. v \<notin> set (snippet_id env)) (validated_url_v env)))"
| "query_count env [SELECT_COUNT_DISTINCT_CHANNEL] = card (set (snippet_channelId env))"
| "query_count env q = 0"

text \<open>The calls to the catalogue and to object storage, in the order they are made.\<close>

datatype event =
    Table_exists string
  | Query_athena_and_get_result "sql list"
  | Query_athena_and_download "sql list"
  | Query_athena_and_wait "sql list"
  | Compress
  | Upload_file string string

section \<open>The class \<^verbatim>\<open>Youtube\<close>\<close>

record credential =
  developer_key :: string

text \<open>The fields of \<^verbatim>\<open>self\<close>. \<open>credentials\<close> is \<^verbatim>\<open>config['youtube']\<close>: a list,
  since both flows index it with \<^verbatim>\<open>current_key = 0\<close>.\<close>

record youtube_self =
  credentials :: "credential list"
  athena_data :: string
  s3_admin :: string
  s3_data :: string

text \<open>
  The local variables of a flow (\<open>youtube\<close> is the API client, identified by the
  developer key it was built with; \<open>json_writer\<close> holds the lines written, one item
  each), and what the run has done to the outside so far: \<open>calls\<close> counts the API
  requests, \<open>ticks\<close> the readings of the clock, \<open>trace\<close> lists the calls to the
  catalogue and to storage.
\<close>

record state =
  current_key :: nat
  youtube :: string
  num_videos :: nat
  num_channels :: nat
  json_writer :: "json list"
  calls :: nat
  ticks :: nat
  trace :: "event list"

definition emit :: "event \<Rightarrow> state \<Rightarrow> state" where
  "emit ev st = st\<lparr>trace := trace st @ [ev]\<rparr>"

definition api_called :: "state \<Rightarrow> state" where
  "api_called st = st\<lparr>calls := calls st + 1\<rparr>"

text \<open>\<^verbatim>\<open>googleapiclient.discovery.build(\<dots>, developerKey=c['developer_key'], \<dots>)\<close>.\<close>

definition build :: "credential \<Rightarrow> string" where
  "build c = developer_key c"

text \<open>Lines 157 and 158: the handler catches \<^verbatim>\<open>HttpError\<close> only, and takes the
  rotation branch when \<^verbatim>\<open>"403" in str(e)\<close>.\<close>

definition quota_error :: "exn \<Rightarrow> bool" where
  "quota_error e =
     (case e of
        HttpError status uri reason \<Rightarrow> contains ''403'' (str_HttpError status uri reason)
      | _ \<Rightarrow> False)"

subsection \<open>The retry loops\<close>

text \<open>Lines 152 to 173. The log call of line 159 reads
  \<^verbatim>\<open>self.credentials[current_key]\<close> before the key is advanced.\<close>

function fetch_video :: "youtube_self \<Rightarrow> env \<Rightarrow> string \<Rightarrow> state \<Rightarrow> (exn + json) \<times> state" where
  "fetch_video self env video_id st =
     (case videos_list env (calls st) (youtube st) video_id of
        Returns response \<Rightarrow> (Inr response, api_called st)
      | Raises e \<Rightarrow>
          (if quota_error e then
             (case list_getitem (credentials self) (current_key st) of
                Inl err \<Rightarrow> (Inl err, api_called st)
              | Inr _ \<Rightarrow>
                  (if current_key st + 1 \<ge> length (credentials self)
                   then (Inl e, (api_called st)\<lparr>current_key := current_key st + 1\<rparr>)
                   else fetch_video self env video_id
                          ((api_called st)
                             \<lparr>current_key := current_key st + 1,
                              youtube := build (credentials self ! (current_key st + 1))\<rparr>)))
           else (Inl e, api_called st)))"
  by pat_completeness auto
termination
  by (relation "measure (\<lambda>(self, env, video_id, st). length (credentials self) - current_key st)")
     (auto simp: api_called_def)

declare fetch_video.simps [simp del]

text \<open>Lines 218 to 239. Line 229 takes \<^verbatim>\<open>len(self.credentials['youtube'])\<close>, a
  string index into the list of credentials.\<close>

function fetch_channel :: "youtube_self \<Rightarrow> env \<Rightarrow> string \<Rightarrow> state \<Rightarrow> (exn + json) \<times> state" where
  "fetch_channel self env channel_id st =
     (case channels_list env (calls st) (youtube st) channel_id of
        Returns response \<Rightarrow> (Inr response, api_called st)
      | Raises e \<Rightarrow>
          (if quota_error e then
             (case list_getitem (credentials self) (current_key st) of
                Inl err \<Rightarrow> (Inl err, api_called st)
              | Inr _ \<Rightarrow>
                  (case list_getitem_str (credentials self) ''youtube'' of
                     Inl err \<Rightarrow> (Inl err, (api_called st)\<lparr>current_key := current_key st + 1\<rparr>)
                   | Inr pool \<Rightarrow>
                       (if current_key st + 1 \<ge> length pool
                        then (Inl e, (api_called st)\<lparr>current_key := current_key st + 1\<rparr>)
                        else
                          (case list_getitem (credentials self) (current_key st + 1) of
                             Inl err \<Rightarrow>
                               (Inl err, (api_called st)\<lparr>current_key := current_key st + 1\<rparr>)
                           | Inr c \<Rightarrow>
                               fetch_channel self env channel_id
                                 ((api_called st)
                                    \<lparr>current_key := current_key st + 1, youtube := build c\<rparr>)))))
           else (Inl e, api_called st)))"
  by pat_completeness auto
termination
  by (relation "measure (\<lambda>(self, env, channel_id, st). length (credentials self) - current_key st)")
     (auto simp: list_getitem_str_def)

declare fetch_channel.simps [simp del]

subsection \<open>Writing the items of a response\<close>

text \<open>Lines 174 to 177.\<close>

fun write_video_items :: "env \<Rightarrow> json list \<Rightarrow> state \<Rightarrow> (exn + unit) \<times> state" where
  "write_video_items env [] st = (Inr (), st)"
| "write_video_items env (item # items) st =
     (case rewrite_publishedAt item of
        Inl e \<Rightarrow> (Inl e, st)
      | Inr item1 \<Rightarrow>
          (case stamp_retrieved_at (utcnow env (ticks st)) item1 of
             Inl e \<Rightarrow> (Inl e, st\<lparr>ticks := ticks st + 1\<rparr>)
           | Inr item2 \<Rightarrow>
               write_video_items env items
                 (st\<lparr>ticks := ticks st + 1, json_writer := json_writer st @ [item2]\<rparr>)))"

text \<open>Lines 240 to 242.\<close>

fun write_channel_items :: "env \<Rightarrow> json list \<Rightarrow> state \<Rightarrow> (exn + unit) \<times> state" where
  "write_channel_items env [] st = (Inr (), st)"
| "write_channel_items env (item # items) st =
     (case stamp_retrieved_at (utcnow env (ticks st)) item of
        Inl e \<Rightarrow> (Inl e, st\<lparr>ticks := ticks st + 1\<rparr>)
      | Inr item1 \<Rightarrow>
          write_channel_items env items
            (st\<lparr>ticks := ticks st + 1, json_writer := json_writer st @ [item1]\<rparr>))"

subsection \<open>The loops over the identifiers\<close>

text \<open>Lines 147 to 177, one round per row of the downloaded file.\<close>

fun video_rows :: "youtube_self \<Rightarrow> env \<Rightarrow> string list \<Rightarrow> state \<Rightarrow> (exn + unit) \<times> state" where
  "video_rows self env [] st = (Inr (), st)"
| "video_rows self env (video_id # rest) st =
     (case fetch_video self env video_id (st\<lparr>num_videos := num_videos st + 1\<rparr>) of
        (Inl e, st1) \<Rightarrow> (Inl e, st1)
      | (Inr response, st1) \<Rightarrow>
          (case response_items response of
             Inl e \<Rightarrow> (Inl e, st1)
           | Inr items \<Rightarrow>
               (case write_video_items env items st1 of
                  (Inl e, st2) \<Rightarrow> (Inl e, st2)
                | (Inr u, st2) \<Rightarrow> video_rows self env rest st2)))"

text \<open>Lines 213 to 242.\<close>

fun channel_rows :: "youtube_self \<Rightarrow> env \<Rightarrow> string list \<Rightarrow> state \<Rightarrow> (exn + unit) \<times> state" where
  "channel_rows self env [] st = (Inr (), st)"
| "channel_rows self env (channel_id # rest) st =
     (case fetch_channel self env channel_id (st\<lparr>num_channels := num_channels st + 1\<rparr>) of
        (Inl e, st1) \<Rightarrow> (Inl e, st1)
      | (Inr response, st1) \<Rightarrow>
          (case response_items response of
             Inl e \<Rightarrow> (Inl e, st1)
           | Inr items \<Rightarrow>
               (case write_channel_items env items st1 of
                  (Inl e, st2) \<Rightarrow> (Inl e, st2)
                | (Inr u, st2) \<Rightarrow> channel_rows self env rest st2)))"

subsection \<open>Resolving the work set\<close>

text \<open>Lines 124 to 133: the two queries, extended by the \<^verbatim>\<open>not in\<close> clause when the
  table exists; the result is \<^verbatim>\<open>video_count\<close> and the rows of \<^verbatim>\<open>video_ids.csv\<close>.\<close>

definition video_work_set :: "env \<Rightarrow> state \<Rightarrow> (nat \<times> string list) \<times> state" where
  "video_work_set env st =
     (let query = [SELECT_YOUTUBE_VIDEOS];
          query_count_text = [SELECT_COUNT_YOUTUBE_VIDEOS];
          ex = table_exists env ''youtube_video_snippet'';
          st1 = emit (Table_exists ''youtube_video_snippet'') st;
          query = (if ex then query @ [TABLE_YOUTUBE_VIDEO_SNIPPET_EXISTS] else query);
          query_count_text =
            (if ex then query_count_text @ [TABLE_YOUTUBE_VIDEO_SNIPPET_EXISTS]
             else query_count_text);
          video_count = query_count env query_count_text;
          st2 = emit (Query_athena_and_get_result query_count_text) st1;
          video_ids = query_rows env query;
          st3 = emit (Query_athena_and_download query) st2
      in ((video_count, video_ids), st3))"

text \<open>Lines 192 to 199: the rows of \<^verbatim>\<open>channel_ids.csv\<close> and \<^verbatim>\<open>channel_count\<close>.\<close>

definition channel_work_set :: "env \<Rightarrow> state \<Rightarrow> (nat \<times> string list) \<times> state" where
  "channel_work_set env st =
     (let channel_ids = query_rows env [SELECT_DISTINCT_CHANNEL];
          st1 = emit (Query_athena_and_download [SELECT_DISTINCT_CHANNEL]) st;
          channel_count = query_count env [SELECT_COUNT_DISTINCT_CHANNEL];
          st2 = emit (Query_athena_and_get_result [SELECT_COUNT_DISTINCT_CHANNEL]) st1
      in ((channel_count, channel_ids), st2))"

subsection \<open>The two flows\<close>

text \<open>Lines 121 to 188.\<close>

definition collect_video_snippets :: "youtube_self \<Rightarrow> env \<Rightarrow> state \<Rightarrow> (exn + unit) \<times> state" where
  "collect_video_snippets self env st =
     (case video_work_set env st of
        ((video_count, video_ids), st1) \<Rightarrow>
          (case list_getitem (credentials self) 0 of
             Inl e \<Rightarrow> (Inl e, st1\<lparr>current_key := 0\<rparr>)
           | Inr c \<Rightarrow>
               (case video_rows self env video_ids
                       (st1\<lparr>current_key := 0, youtube := build c, num_videos := 0,
                            json_writer := []\<rparr>) of
                  (Inl e, st2) \<Rightarrow> (Inl e, st2)
                | (Inr u, st2) \<Rightarrow>
                    (let st3 = emit Compress st2;
                         s3_filename =
                           video_snippet_key (creation_date (utcnow env (ticks st3)))
                             (num_videos st3);
                         st4 = st3\<lparr>ticks := ticks st3 + 1\<rparr>;
                         st5 = emit (Upload_file (s3_data self) s3_filename) st4;
                         st6 = emit (Query_athena_and_wait
                                       [CREATE_VIDEO_SNIPPET_JSON (s3_data self)]) st5
                     in (Inr (), st6)))))"

text \<open>Lines 190 to 258.\<close>

definition collect_channel_stats :: "youtube_self \<Rightarrow> env \<Rightarrow> state \<Rightarrow> (exn + unit) \<times> state" where
  "collect_channel_stats self env st =
     (case channel_work_set env st of
        ((channel_count, channel_ids), st1) \<Rightarrow>
          (case list_getitem (credentials self) 0 of
             Inl e \<Rightarrow> (Inl e, st1\<lparr>current_key := 0\<rparr>)
           | Inr c \<Rightarrow>
               (case channel_rows self env channel_ids
                       (st1\<lparr>current_key := 0, youtube := build c, num_channels := 0,
                            json_writer := []\<rparr>) of
                  (Inl e, st2) \<Rightarrow> (Inl e, st2)
                | (Inr u, st2) \<Rightarrow>
                    (let st3 = emit Compress st2;
                         s3_filename =
                           channel_stats_key (creation_date (utcnow env (ticks st3)))
                             (num_channels st3);
                         st4 = st3\<lparr>ticks := ticks st3 + 1\<rparr>;
                         st5 = emit (Upload_file (s3_data self) s3_filename) st4;
                         st6 = emit (Query_athena_and_wait
                                       [DROP_TABLE_IF_EXISTS ''youtube_channel_stats'']) st5;
                         st7 = emit (Query_athena_and_wait
                                       [CREATE_CHANNEL_STATS_JSON (s3_data self)]) st6;
                         st8 = emit (Query_athena_and_wait
                                       [MSCK_REPAIR_TABLE ''youtube_channel_stats'']) st7
                     in (Inr (), st8)))))"

section \<open>Checks on written records\<close>

text \<open>The \<^verbatim>\<open>retrieved_at\<close> field of a record is a string of the form
  \<^verbatim>\<open>YYYY-MM-DD HH:MM:SS.mmm\<close>.\<close>

definition retrieved_at_ok :: "json \<Rightarrow> bool" where
  "retrieved_at_ok r =
     (case getitem r ''retrieved_at'' of
        Inr (JStr s) \<Rightarrow> matches ''YYYY-MM-DD HH:MM:SS.mmm'' s
      | _ \<Rightarrow> False)"

text \<open>The \<^verbatim>\<open>publishedAt\<close> string of a video item, where it has one.\<close>

definition publishedAt_of :: "json \<Rightarrow> exn + json" where
  "publishedAt_of item =
     (case getitem item ''snippet'' of
        Inl e \<Rightarrow> Inl e
      | Inr snippet \<Rightarrow> getitem snippet ''publishedAt'')"

text \<open>The \<^verbatim>\<open>publishedAt\<close> of a record is a string in which no \<^verbatim>\<open>T\<close> is left and
  which does not end in \<^verbatim>\<open>Z\<close>.\<close>

definition publishedAt_ok :: "json \<Rightarrow> bool" where
  "publishedAt_ok r =
     (case publishedAt_of r of
        Inr (JStr s) \<Rightarrow> CHR ''T'' \<notin> set s \<and> (s = [] \<or> last s \<noteq> CHR ''Z'')
      | _ \<Rightarrow> False)"

text \<open>Record \<open>r\<close> carries the normalized \<^verbatim>\<open>publishedAt\<close> of the item it was written
  for.\<close>

definition written_for :: "json \<Rightarrow> json \<Rightarrow> bool" where
  "written_for item r =
     (case publishedAt_of item of
        Inr (JStr p) \<Rightarrow> publishedAt_of r = Inr (JStr (normalize_publishedAt p))
      | _ \<Rightarrow> False)"

section \<open>Concrete runs\<close>

text \<open>A fresh process, a clock stopped at 2021-05-01 12:00:07.123456, and API
  entities as the two endpoints return them.\<close>

definition initial :: state where
  "initial = \<lparr>current_key = 0, youtube = [], num_videos = 0, num_channels = 0,
     json_writer = [], calls = 0, ticks = 0, trace = []\<rparr>"

definition may_first :: datetime where
  "may_first = \<lparr>year = 2021, month = 5, day = 1, hour = 12, minute = 0, second = 7,
     microsecond = 123456\<rparr>"

definition video_item :: "string \<Rightarrow> json" where
  "video_item i =
     JObj [(''kind'', JStr ''youtube#video''), (''id'', JStr i),
           (''snippet'', JObj [(''publishedAt'', JStr ''2021-05-01T12:00:00Z''),
                               (''channelId'', JStr ''x'')])]"

definition channel_item :: "string \<Rightarrow> json" where
  "channel_item i =
     JObj [(''kind'', JStr ''youtube#channel''), (''id'', JStr i),
           (''statistics'', JObj [(''viewCount'', JStr ''10'')])]"

definition entities :: "json list \<Rightarrow> json" where
  "entities xs = JObj [(''etag'', JStr ''e''), (''items'', JArr xs)]"

text \<open>First run: no table yet, the crawl yields \<^verbatim>\<open>a\<close>, \<^verbatim>\<open>b\<close>, \<^verbatim>\<open>c\<close>, and the API
  knows no video \<^verbatim>\<open>c\<close>.\<close>

definition first_run :: env where
  "first_run =
     \<lparr>tables = [], validated_url_v = [''a'', ''b'', ''c''], snippet_id = [],
      snippet_channelId = [], channel_stats_id = [],
      videos_list = (\<lambda>n key i. Returns (entities (if i = ''c'' then [] else [video_item i]))),
      channels_list = (\<lambda>n key i. Returns (entities [])),
      utcnow = (\<lambda>n. may_first)\<rparr>"

text \<open>A later run: both tables exist, video \<^verbatim>\<open>a\<close> and channel \<^verbatim>\<open>x\<close> are persisted,
  and the API knows no channel \<^verbatim>\<open>y\<close>.\<close>

definition later_run :: env where
  "later_run =
     \<lparr>tables = [''youtube_video_snippet'', ''youtube_channel_stats''],
      validated_url_v = [''a'', ''b'', ''c'', ''a''], snippet_id = [''a''],
      snippet_channelId = [''x'', ''y'', ''x''], channel_stats_id = [''x''],
      videos_list = (\<lambda>n key i. Returns (entities (if i = ''c'' then [] else [video_item i]))),
      channels_list = (\<lambda>n key i. Returns (entities (if i = ''y'' then [] else [channel_item i]))),
      utcnow = (\<lambda>n. may_first)\<rparr>"

text \<open>The URLs of the two requests; they hold the identifier.\<close>

definition videos_uri :: "string \<Rightarrow> string" where
  "videos_uri i = ''https://www.googleapis.com/youtube/v3/videos?part=snippet&id='' @ i"

definition channels_uri :: "string \<Rightarrow> string" where
  "channels_uri i = ''https://www.googleapis.com/youtube/v3/channels?part=statistics&id='' @ i"

text \<open>The same, with the quota of developer key \<^verbatim>\<open>k0\<close> used up.\<close>

definition first_key_exhausted :: env where
  "first_key_exhausted =
     later_run
       \<lparr>videos_list :=
          (\<lambda>n key i. if key = ''k0'' then Raises (HttpError 403 (videos_uri i) ''quotaExceeded'')
                       else Returns (entities [video_item i])),
        channels_list :=
          (\<lambda>n key i. if key = ''k0'' then Raises (HttpError 403 (channels_uri i) ''quotaExceeded'')
                       else Returns (entities [channel_item i]))\<rparr>"

text \<open>The same, with a server error (HTTP 500) for every request made with \<^verbatim>\<open>k0\<close>
  instead.\<close>

definition first_key_server_error :: env where
  "first_key_server_error =
     later_run
       \<lparr>videos_list :=
          (\<lambda>n key i. if key = ''k0'' then Raises (HttpError 500 (videos_uri i) ''Backend Error'')
                       else Returns (entities [video_item i])),
        channels_list :=
          (\<lambda>n key i. if key = ''k0'' then Raises (HttpError 500 (channels_uri i) ''Backend Error'')
                       else Returns (entities [channel_item i]))\<rparr>"

text \<open>The same, with the API answering every request with a server error.\<close>

definition api_down :: env where
  "api_down =
     later_run
       \<lparr>videos_list := (\<lambda>n key i. Raises (HttpError 500 (videos_uri i) ''Backend Error'')),
        channels_list := (\<lambda>n key i. Raises (HttpError 500 (channels_uri i) ''Backend Error''))\<rparr>"

definition one_key :: youtube_self where
  "one_key = \<lparr>credentials = [\<lparr>developer_key = ''k0''\<rparr>], athena_data = ''db'',
     s3_admin = ''admin'', s3_data = ''data''\<rparr>"

definition two_keys :: youtube_self where
  "two_keys = \<lparr>credentials = [\<lparr>developer_key = ''k0''\<rparr>, \<lparr>developer_key = ''k1''\<rparr>],
     athena_data = ''db'', s3_admin = ''admin'', s3_data = ''data''\<rparr>"

section \<open>Strings\<close>

lemma rstrip_fixed:
  assumes "s = [] \<or> last s \<notin> set chars"
  shows "rstrip chars s = s"
proof (cases s rule: rev_cases)
  case Nil
  then show ?thesis by (simp add: rstrip_def)
next
  case (snoc ys y)
  with assms have "y \<notin> set chars" by simp
  with snoc show ?thesis by (simp add: rstrip_def)
qed

lemma rstrip_last:
  "rstrip chars s = [] \<or> last (rstrip chars s) \<notin> set chars"
proof (cases "dropWhile (\<lambda>c. c \<in> set chars) (rev s)")
  case Nil
  then show ?thesis by (simp add: rstrip_def)
next
  case (Cons y ys)
  then have "y \<notin> set chars"
    by (metis (mono_tags, lifting) hd_dropWhile list.sel(1) list.distinct(1))
  with Cons show ?thesis by (simp add: rstrip_def)
qed

lemma replace_char_last:
  assumes "s \<noteq> []"
  shows "last (replace_char old new s) = (if last s = old then new else last s)"
  using assms by (simp add: replace_char_def last_map)

lemma replace_char_twice:
  "new \<noteq> old \<Longrightarrow> replace_char old new (replace_char old new s) = replace_char old new s"
  by (simp add: replace_char_def)

section \<open>Decimal numbers and storage keys\<close>

lemma digit_char_is_digit: "d < 10 \<Longrightarrow> is_digit (digit_char d)"
  by (simp add: is_digit_def digit_char_def del: set_simps list.set)

lemma digit_char_inj: "d < 10 \<Longrightarrow> d' < 10 \<Longrightarrow> digit_char d = digit_char d' \<Longrightarrow> d = d'"
  by (simp add: digit_char_def nth_eq_iff_index_eq)

lemma dec_nonempty: "dec n \<noteq> []"
  by (subst dec.simps) simp

lemma dec_digits: "list_all is_digit (dec n)"
proof (induction n rule: dec.induct)
  case (1 n)
  show ?case
  proof (cases "n < 10")
    case True
    then show ?thesis by (subst dec.simps) (simp add: digit_char_is_digit)
  next
    case False
    with "1.IH" show ?thesis by (subst dec.simps) (simp add: digit_char_is_digit)
  qed
qed

lemma dec_length: "0 < k \<Longrightarrow> n < 10 ^ k \<Longrightarrow> length (dec n) \<le> k"
proof (induction n arbitrary: k rule: dec.induct)
  case (1 n)
  show ?case
  proof (cases "n < 10")
    case True
    with "1.prems" show ?thesis by (subst dec.simps) simp
  next
    case False
    from "1.prems" obtain j where k: "k = Suc j" by (cases k) auto
    with False "1.prems" have "0 < j" by (cases j) auto
    moreover from k "1.prems" have "n div 10 < 10 ^ j" by (simp add: less_mult_imp_div_less mult.commute)
    ultimately have "length (dec (n div 10)) \<le> j" using "1.IH" False by simp
    with False k show ?thesis by (subst dec.simps) simp
  qed
qed

lemma dec_inj: "dec n = dec m \<Longrightarrow> n = m"
proof (induction n arbitrary: m rule: dec.induct)
  case (1 n)
  show ?case
  proof (cases "n < 10")
    case n: True
    show ?thesis
    proof (cases "m < 10")
      case True
      with n "1.prems" show ?thesis
        by (simp add: dec.simps [of n] dec.simps [of m] digit_char_inj)
    next
      case False
      with n "1.prems" dec_nonempty [of "m div 10"] show ?thesis
        by (auto simp add: dec.simps [of n] dec.simps [of m])
    qed
  next
    case n: False
    show ?thesis
    proof (cases "m < 10")
      case True
      with n "1.prems" dec_nonempty [of "n div 10"] show ?thesis
        by (auto simp add: dec.simps [of n] dec.simps [of m])
    next
      case False
      with n "1.prems" have "dec (n div 10) = dec (m div 10)"
        and d: "digit_char (n mod 10) = digit_char (m mod 10)"
        by (simp_all add: dec.simps [of n] dec.simps [of m])
      with "1.IH" n have "n div 10 = m div 10" by simp
      moreover from d have "n mod 10 = m mod 10" by (simp add: digit_char_inj)
      ultimately show ?thesis by (metis div_mult_mod_eq)
    qed
  qed
qed

lemma zpad_fixed:
  assumes "0 < k" "n < 10 ^ k"
  shows "length (zpad k (dec n)) = k \<and> list_all is_digit (zpad k (dec n))"
proof -
  from assms have "length (dec n) \<le> k" by (rule dec_length)
  moreover have "is_digit (CHR ''0'')" by (simp add: is_digit_def)
  ultimately show ?thesis using dec_digits [of n] by (auto simp add: zpad_def list_all_iff)
qed

lemma first_sep_unique:
  assumes "p @ c # a = q @ c # b" "c \<notin> set p" "c \<notin> set q"
  shows "p = q \<and> a = b"
proof -
  have "takeWhile (\<lambda>z. z \<noteq> c) (p @ c # a) = p" "takeWhile (\<lambda>z. z \<noteq> c) (q @ c # b) = q"
    using assms(2,3) by (auto simp add: takeWhile_tail)
  with assms(1) have "p = q" by simp
  with assms(1) show ?thesis by simp
qed

lemma sep_unique:
  assumes "a @ c # x @ s = b @ c # y @ s" "c \<notin> set x" "c \<notin> set y"
  shows "x = y \<and> a = b"
proof -
  from assms(1) have "(a @ c # x) @ s = (b @ c # y) @ s" by simp
  then have "a @ c # x = b @ c # y" by (simp only: append_same_eq)
  then have "rev (a @ c # x) = rev (b @ c # y)" by simp
  then have "rev x @ c # rev a = rev y @ c # rev b" by simp
  moreover from assms(2,3) have "c \<notin> set (rev x)" "c \<notin> set (rev y)" by simp_all
  ultimately have "rev x = rev y \<and> rev a = rev b" by (rule first_sep_unique)
  then show ?thesis by simp
qed

lemma digit_not_sep: "is_digit c \<Longrightarrow> c \<noteq> CHR ''-'' \<and> c \<noteq> CHR ''/'' \<and> c \<noteq> CHR ''T'' \<and> c \<noteq> CHR ''Z''"
  by (auto simp: is_digit_def)

lemma dec_no_sep: "CHR ''-'' \<notin> set (dec n)" "CHR ''/'' \<notin> set (dec n)"
  using dec_digits [of n] digit_not_sep by (auto simp: list_all_iff)

lemma video_snippet_key_inj:
  "video_snippet_key d1 n1 = video_snippet_key d2 n2 \<Longrightarrow> n1 = n2 \<and> d1 = d2"
  using sep_unique [of d1 "CHR ''-''" "dec n1" "''.json.bz2''" d2 "dec n2"] dec_no_sep
  by (auto simp add: video_snippet_key_def dec_inj)

lemma channel_stats_key_inj:
  "channel_stats_key d1 n1 = channel_stats_key d2 n2 \<Longrightarrow> n1 = n2 \<and> d1 = d2"
  using sep_unique [of d1 "CHR ''/''" "dec n1" "''.json.bz2''" d2 "dec n2"] dec_no_sep
  by (auto simp add: channel_stats_key_def dec_inj)

section \<open>Timestamps\<close>

lemma len2: "length xs = 2 \<Longrightarrow> \<exists>a b. xs = [a, b]"
  by (auto simp: numeral_eq_Suc length_Suc_conv)

lemma len4: "length xs = 4 \<Longrightarrow> \<exists>a b c d. xs = [a, b, c, d]"
  by (auto simp: numeral_eq_Suc length_Suc_conv)

lemma len6: "length xs = 6 \<Longrightarrow> \<exists>a b c d e f. xs = [a, b, c, d, e, f]"
  by (auto simp: numeral_eq_Suc length_Suc_conv)

lemma two_digits:
  assumes "n < 100"
  obtains a b where "zpad 2 (dec n) = [a, b]" "is_digit a" "is_digit b"
proof -
  from assms have "length (zpad 2 (dec n)) = 2 \<and> list_all is_digit (zpad 2 (dec n))"
    by (intro zpad_fixed) simp_all
  then show thesis using that len2 [of "zpad 2 (dec n)"] by auto
qed

lemma four_digits:
  assumes "n < 10000"
  obtains a b c d where "zpad 4 (dec n) = [a, b, c, d]"
    "is_digit a" "is_digit b" "is_digit c" "is_digit d"
proof -
  from assms have "length (zpad 4 (dec n)) = 4 \<and> list_all is_digit (zpad 4 (dec n))"
    by (intro zpad_fixed) simp_all
  then show thesis using that len4 [of "zpad 4 (dec n)"] by auto
qed

lemma six_digits:
  assumes "n < 1000000"
  obtains a b c d e f where "zpad 6 (dec n) = [a, b, c, d, e, f]"
    "is_digit a" "is_digit b" "is_digit c" "is_digit d" "is_digit e" "is_digit f"
proof -
  from assms have "length (zpad 6 (dec n)) = 6 \<and> list_all is_digit (zpad 6 (dec n))"
    by (intro zpad_fixed) simp_all
  then show thesis using that len6 [of "zpad 6 (dec n)"] by auto
qed

lemma creation_date_matches:
  assumes "valid_datetime t"
  shows "matches ''YYYY-MM-DD'' (creation_date t)"
proof -
  from assms have "year t < 10000" "month t < 100" "day t < 100"
    by (simp_all add: valid_datetime_def)
  then obtain y1 y2 y3 y4 m1 m2 d1 d2 where
    "zpad 4 (dec (year t)) = [y1, y2, y3, y4]" "is_digit y1" "is_digit y2" "is_digit y3" "is_digit y4"
    "zpad 2 (dec (month t)) = [m1, m2]" "is_digit m1" "is_digit m2"
    "zpad 2 (dec (day t)) = [d1, d2]" "is_digit d1" "is_digit d2"
    by (metis four_digits two_digits)
  then show ?thesis by (simp add: creation_date_def directive_def matches_def)
qed

lemma retrieved_at_matches:
  assumes "valid_datetime t"
  shows "matches ''YYYY-MM-DD HH:MM:SS.mmm'' (retrieved_at t)"
proof -
  from assms have "year t < 10000" "month t < 100" "day t < 100"
     "hour t < 100" "minute t < 100" "second t < 100" "microsecond t < 1000000"
    by (simp_all add: valid_datetime_def)
  then obtain y1 y2 y3 y4 m1 m2 d1 d2 h1 h2 i1 i2 s1 s2 f1 f2 f3 f4 f5 f6 where
    "zpad 4 (dec (year t)) = [y1, y2, y3, y4]" "is_digit y1" "is_digit y2" "is_digit y3" "is_digit y4"
    "zpad 2 (dec (month t)) = [m1, m2]" "is_digit m1" "is_digit m2"
    "zpad 2 (dec (day t)) = [d1, d2]" "is_digit d1" "is_digit d2"
    "zpad 2 (dec (hour t)) = [h1, h2]" "is_digit h1" "is_digit h2"
    "zpad 2 (dec (minute t)) = [i1, i2]" "is_digit i1" "is_digit i2"
    "zpad 2 (dec (second t)) = [s1, s2]" "is_digit s1" "is_digit s2"
    "zpad 6 (dec (microsecond t)) = [f1, f2, f3, f4, f5, f6]" "is_digit f1" "is_digit f2" "is_digit f3"
    by (metis four_digits two_digits six_digits)
  then show ?thesis by (simp add: retrieved_at_def directive_def matches_def)
qed

lemma normalize_publishedAt_pattern:
  assumes "matches ''YYYY-MM-DDTHH:MM:SSZ'' s"
  shows "normalize_publishedAt s = take 10 s @ '' '' @ take 8 (drop 11 s) \<and>
         matches ''YYYY-MM-DD HH:MM:SS'' (normalize_publishedAt s)"
proof -
  from assms obtain y1 y2 y3 y4 m1 m2 d1 d2 h1 h2 i1 i2 s1 s2 where
    s: "s = [y1, y2, y3, y4, CHR ''-'', m1, m2, CHR ''-'', d1, d2, CHR ''T'',
             h1, h2, CHR '':'', i1, i2, CHR '':'', s1, s2, CHR ''Z'']"
    and d: "is_digit y1" "is_digit y2" "is_digit y3" "is_digit y4" "is_digit m1" "is_digit m2"
      "is_digit d1" "is_digit d2" "is_digit h1" "is_digit h2" "is_digit i1" "is_digit i2"
      "is_digit s1" "is_digit s2"
    by (auto simp: matches_def list_all2_Cons1)
  from d [THEN digit_not_sep] have
    "y1 \<noteq> CHR ''T''" "y2 \<noteq> CHR ''T''" "y3 \<noteq> CHR ''T''" "y4 \<noteq> CHR ''T''"
    "m1 \<noteq> CHR ''T''" "m2 \<noteq> CHR ''T''" "d1 \<noteq> CHR ''T''" "d2 \<noteq> CHR ''T''"
    "h1 \<noteq> CHR ''T''" "h2 \<noteq> CHR ''T''" "i1 \<noteq> CHR ''T''" "i2 \<noteq> CHR ''T''"
    "s1 \<noteq> CHR ''T''" "s2 \<noteq> CHR ''T''" "s2 \<noteq> CHR ''Z''"
    by simp_all
  with s d show ?thesis
    by (simp add: matches_def normalize_publishedAt_def rstrip_def replace_char_def)
qed

section \<open>The loops\<close>

lemma fetch_video_frame:
  "fetch_video self env vid st = (r, st') \<Longrightarrow>
     num_videos st' = num_videos st \<and> num_channels st' = num_channels st \<and>
     json_writer st' = json_writer st \<and> ticks st' = ticks st \<and> trace st' = trace st"
proof (induction self env vid st rule: fetch_video.induct)
  case (1 self env vid st)
  from "1.prems" show ?case
    apply (subst (asm) fetch_video.simps)
    apply (auto split: outcome.splits if_splits sum.splits simp: api_called_def dest: "1.IH")
    done
qed

lemma fetch_channel_unfold:
  "fetch_channel self env channel_id st =
     (case channels_list env (calls st) (youtube st) channel_id of
        Returns response \<Rightarrow> (Inr response, api_called st)
      | Raises e \<Rightarrow>
          (if quota_error e then
             (case list_getitem (credentials self) (current_key st) of
                Inl err \<Rightarrow> (Inl err, api_called st)
              | Inr c \<Rightarrow> (Inl TypeError, (api_called st)\<lparr>current_key := current_key st + 1\<rparr>))
           else (Inl e, api_called st)))"
  by (subst fetch_channel.simps) (simp add: list_getitem_str_def split: outcome.splits sum.splits)

lemma fetch_channel_frame:
  "fetch_channel self env cid st = (r, st') \<Longrightarrow>
     num_videos st' = num_videos st \<and> num_channels st' = num_channels st \<and>
     json_writer st' = json_writer st \<and> ticks st' = ticks st \<and> trace st' = trace st"
  by (auto simp: fetch_channel_unfold api_called_def split: outcome.splits if_splits sum.splits)

lemma stamp_retrieved_at_ok:
  "valid_datetime now \<Longrightarrow> stamp_retrieved_at now item = Inr item' \<Longrightarrow> retrieved_at_ok item'"
  by (auto simp: stamp_retrieved_at_def setitem_def retrieved_at_ok_def getitem_def update_conv'
      retrieved_at_matches split: json.splits)

lemma write_video_items_frame:
  "write_video_items env items st = (r, st') \<Longrightarrow>
     current_key st' = current_key st \<and> youtube st' = youtube st \<and>
     num_videos st' = num_videos st \<and> num_channels st' = num_channels st \<and>
     calls st' = calls st \<and> trace st' = trace st"
  by (induction items arbitrary: st) (auto split: sum.splits)

lemma write_channel_items_frame:
  "write_channel_items env items st = (r, st') \<Longrightarrow>
     current_key st' = current_key st \<and> youtube st' = youtube st \<and>
     num_videos st' = num_videos st \<and> num_channels st' = num_channels st \<and>
     calls st' = calls st \<and> trace st' = trace st"
  by (induction items arbitrary: st) (auto split: sum.splits)

lemma write_video_items_ok:
  "\<forall>t. valid_datetime (utcnow env t) \<Longrightarrow> write_video_items env items st = (r, st') \<Longrightarrow>
     list_all retrieved_at_ok (json_writer st) \<Longrightarrow> list_all retrieved_at_ok (json_writer st')"
  by (induction items arbitrary: st) (auto split: sum.splits dest: stamp_retrieved_at_ok [rotated])

lemma write_channel_items_ok:
  "\<forall>t. valid_datetime (utcnow env t) \<Longrightarrow> write_channel_items env items st = (r, st') \<Longrightarrow>
     list_all retrieved_at_ok (json_writer st) \<Longrightarrow> list_all retrieved_at_ok (json_writer st')"
  by (induction items arbitrary: st) (auto split: sum.splits dest: stamp_retrieved_at_ok [rotated])

lemma video_rows_trace: "video_rows self env ids st = (r, st') \<Longrightarrow> trace st' = trace st"
proof (induction ids arbitrary: st)
  case Nil
  then show ?case by simp
next
  case (Cons vid rest)
  then show ?case
    by (auto split: prod.splits sum.splits dest!: fetch_video_frame write_video_items_frame)
qed

lemma video_rows_count:
  "video_rows self env ids st = (Inr u, st') \<Longrightarrow> num_videos st' = num_videos st + length ids"
proof (induction ids arbitrary: st)
  case Nil
  then show ?case by simp
next
  case (Cons vid rest)
  then show ?case
    by (auto split: prod.splits sum.splits dest!: fetch_video_frame write_video_items_frame)
qed

lemma video_rows_ok:
  "\<forall>t. valid_datetime (utcnow env t) \<Longrightarrow> video_rows self env ids st = (r, st') \<Longrightarrow>
     list_all retrieved_at_ok (json_writer st) \<Longrightarrow> list_all retrieved_at_ok (json_writer st')"
proof (induction ids arbitrary: st)
  case Nil
  then show ?case by simp
next
  case (Cons vid rest)
  show ?case
  proof (cases "fetch_video self env vid (st\<lparr>num_videos := num_videos st + 1\<rparr>)")
    case (Pair r1 st1)
    then have w1: "json_writer st1 = json_writer st" by (auto dest: fetch_video_frame)
    show ?thesis
    proof (cases r1)
      case (Inl e)
      with Pair Cons.prems w1 show ?thesis by simp
    next
      case (Inr response)
      show ?thesis
      proof (cases "response_items response")
        case (Inl e)
        with Pair Inr Cons.prems w1 show ?thesis by simp
      next
        case items: (Inr items)
        obtain r2 st2 where w: "write_video_items env items st1 = (r2, st2)" by force
        with Cons.prems w1 have ok: "list_all retrieved_at_ok (json_writer st2)"
          by (auto dest: write_video_items_ok)
        show ?thesis
        proof (cases r2)
          case (Inl e)
          with Pair Inr items w Cons.prems ok show ?thesis by simp
        next
          case r2: (Inr u)
          with Pair Inr items w Cons.prems have "video_rows self env rest st2 = (r, st')" by simp
          with Cons.IH Cons.prems(1) ok show ?thesis by blast
        qed
      qed
    qed
  qed
qed

lemma fetch_video_bound:
  "current_key st < length (credentials self) \<Longrightarrow> fetch_video self env vid st = (r, st') \<Longrightarrow>
     calls st < calls st' \<and>
     calls st' \<le> calls st + (length (credentials self) - current_key st) \<and>
     (case r of
        Inr response \<Rightarrow>
          videos_list env (calls st' - 1) (youtube st') vid = Returns response \<and>
          current_key st' < length (credentials self)
      | Inl e \<Rightarrow>
          videos_list env (calls st' - 1) (youtube st') vid = Raises e \<and>
          (quota_error e \<longrightarrow> current_key st' = length (credentials self)))"
proof (induction self env vid st rule: fetch_video.induct)
  case (1 self env vid st)
  show ?case
  proof (cases "videos_list env (calls st) (youtube st) vid")
    case (Returns response)
    with "1.prems" show ?thesis
      by (subst (asm) fetch_video.simps) (auto simp: api_called_def)
  next
    case (Raises e)
    show ?thesis
    proof (cases "quota_error e")
      case False
      with Raises "1.prems" show ?thesis
        by (subst (asm) fetch_video.simps) (auto simp: api_called_def)
    next
      case True
      show ?thesis
      proof (cases "current_key st + 1 \<ge> length (credentials self)")
        case last: True
        with True Raises "1.prems" show ?thesis
          by (subst (asm) fetch_video.simps) (auto simp: api_called_def list_getitem_def)
      next
        case more: False
        let ?st1 = "(api_called st)\<lparr>current_key := current_key st + 1,
                       youtube := build (credentials self ! (current_key st + 1))\<rparr>"
        from True Raises more "1.prems" have rec: "fetch_video self env vid ?st1 = (r, st')"
          by (subst (asm) fetch_video.simps) (simp add: list_getitem_def)
        have "list_getitem (credentials self) (current_key st) = Inr (credentials self ! current_key st)"
          using "1.prems" by (simp add: list_getitem_def)
        from "1.IH" [OF Raises True this more _ rec] more
        show ?thesis by (auto simp: api_called_def split: sum.splits)
      qed
    qed
  qed
qed

section \<open>The flows\<close>

lemma channel_rows_trace: "channel_rows self env ids st = (r, st') \<Longrightarrow> trace st' = trace st"
proof (induction ids arbitrary: st)
  case Nil
  then show ?case by simp
next
  case (Cons cid rest)
  then show ?case
    by (auto split: prod.splits sum.splits dest!: fetch_channel_frame write_channel_items_frame)
qed

lemma channel_rows_count:
  "channel_rows self env ids st = (Inr u, st') \<Longrightarrow> num_channels st' = num_channels st + length ids"
proof (induction ids arbitrary: st)
  case Nil
  then show ?case by simp
next
  case (Cons cid rest)
  then show ?case
    by (auto split: prod.splits sum.splits dest!: fetch_channel_frame write_channel_items_frame)
qed

lemma video_rows_result:
  "video_rows self env ids st = (r, st') \<Longrightarrow>
     trace st' = trace st \<and> (\<forall>u. r = Inr u \<longrightarrow> num_videos st' = num_videos st + length ids)"
  using video_rows_trace video_rows_count by blast

lemma channel_rows_result:
  "channel_rows self env ids st = (r, st') \<Longrightarrow>
     trace st' = trace st \<and> (\<forall>u. r = Inr u \<longrightarrow> num_channels st' = num_channels st + length ids)"
  using channel_rows_trace channel_rows_count by blast

lemma video_work_set_eq:
  "video_work_set env st =
     (if table_exists env ''youtube_video_snippet'' then
        ((query_count env [SELECT_COUNT_YOUTUBE_VIDEOS, TABLE_YOUTUBE_VIDEO_SNIPPET_EXISTS],
          query_rows env [SELECT_YOUTUBE_VIDEOS, TABLE_YOUTUBE_VIDEO_SNIPPET_EXISTS]),
         st\<lparr>trace := trace st @
            [Table_exists ''youtube_video_snippet'',
             Query_athena_and_get_result
               [SELECT_COUNT_YOUTUBE_VIDEOS, TABLE_YOUTUBE_VIDEO_SNIPPET_EXISTS],
             Query_athena_and_download
               [SELECT_YOUTUBE_VIDEOS, TABLE_YOUTUBE_VIDEO_SNIPPET_EXISTS]]\<rparr>)
      else
        ((query_count env [SELECT_COUNT_YOUTUBE_VIDEOS], query_rows env [SELECT_YOUTUBE_VIDEOS]),
         st\<lparr>trace := trace st @
            [Table_exists ''youtube_video_snippet'',
             Query_athena_and_get_result [SELECT_COUNT_YOUTUBE_VIDEOS],
             Query_athena_and_download [SELECT_YOUTUBE_VIDEOS]]\<rparr>))"
  by (simp add: video_work_set_def emit_def Let_def)

lemma channel_work_set_eq:
  "channel_work_set env st =
     ((query_count env [SELECT_COUNT_DISTINCT_CHANNEL], query_rows env [SELECT_DISTINCT_CHANNEL]),
      st\<lparr>trace := trace st @
         [Query_athena_and_download [SELECT_DISTINCT_CHANNEL],
          Query_athena_and_get_result [SELECT_COUNT_DISTINCT_CHANNEL]]\<rparr>)"
  by (simp add: channel_work_set_def emit_def Let_def)

lemma video_flow_trace:
  assumes "collect_video_snippets self env st = (r, st')"
  shows "case r of
           Inr u \<Rightarrow>
             trace st' = trace (snd (video_work_set env st)) @
               [Compress,
                Upload_file (s3_data self)
                  (video_snippet_key (creation_date (utcnow env (ticks st' - 1)))
                     (length (snd (fst (video_work_set env st))))),
                Query_athena_and_wait [CREATE_VIDEO_SNIPPET_JSON (s3_data self)]]
         | Inl e \<Rightarrow> trace st' = trace (snd (video_work_set env st))"
  using assms
  by (auto simp: collect_video_snippets_def video_work_set_eq emit_def Let_def
      split: sum.splits prod.splits dest!: video_rows_result)

lemma channel_flow_trace:
  assumes "collect_channel_stats self env st = (r, st')"
  shows "case r of
           Inr u \<Rightarrow>
             trace st' = trace (snd (channel_work_set env st)) @
               [Compress,
                Upload_file (s3_data self)
                  (channel_stats_key (creation_date (utcnow env (ticks st' - 1)))
                     (length (snd (fst (channel_work_set env st))))),
                Query_athena_and_wait [DROP_TABLE_IF_EXISTS ''youtube_channel_stats''],
                Query_athena_and_wait [CREATE_CHANNEL_STATS_JSON (s3_data self)],
                Query_athena_and_wait [MSCK_REPAIR_TABLE ''youtube_channel_stats'']]
         | Inl e \<Rightarrow> trace st' = trace (snd (channel_work_set env st))"
  using assms
  by (auto simp: collect_channel_stats_def channel_work_set_eq emit_def Let_def
      split: sum.splits prod.splits dest!: channel_rows_result)

lemma fetch_channel_bound:
  "current_key st < length (credentials self) \<Longrightarrow> fetch_channel self env cid st = (r, st') \<Longrightarrow>
     calls st' = calls st + 1 \<and>
     (case r of
        Inr response \<Rightarrow>
          channels_list env (calls st' - 1) (youtube st') cid = Returns response \<and>
          current_key st' < length (credentials self)
      | Inl e \<Rightarrow>
          (\<exists>a. channels_list env (calls st' - 1) (youtube st') cid = Raises a \<and>
               (if quota_error a then e = TypeError else e = a)))"
  by (auto simp: fetch_channel_unfold api_called_def list_getitem_def
      split: outcome.splits if_splits sum.splits)

lemma fetch_video_rotation:
  assumes "current_key st + k < length (credentials self)"
    and "youtube st = build (credentials self ! current_key st)"
    and "\<forall>i<k. \<exists>e. videos_list env (calls st + i)
                      (build (credentials self ! (current_key st + i))) video_id = Raises e \<and>
                    quota_error e"
    and "videos_list env (calls st + k)
           (build (credentials self ! (current_key st + k))) video_id = Returns response"
  shows "fetch_video self env video_id st =
           (Inr response,
            st\<lparr>calls := calls st + k + 1, current_key := current_key st + k,
               youtube := build (credentials self ! (current_key st + k))\<rparr>)"
  using assms
proof (induction k arbitrary: st)
  case 0
  then show ?case
    by (subst fetch_video.simps) (simp add: api_called_def)
next
  case (Suc k)
  let ?st1 = "(api_called st)\<lparr>current_key := current_key st + 1,
                 youtube := build (credentials self ! (current_key st + 1))\<rparr>"
  from Suc.prems(3) obtain e where
    e: "videos_list env (calls st) (youtube st) video_id = Raises e" "quota_error e"
    using Suc.prems(2) by force
  have later: "\<forall>i<k. \<exists>e. videos_list env (calls ?st1 + i)
                      (build (credentials self ! (current_key ?st1 + i))) video_id = Raises e \<and>
                    quota_error e"
  proof (intro allI impI)
    fix i assume "i < k"
    then have "Suc i < Suc k" by simp
    with Suc.prems(3) show "\<exists>e. videos_list env (calls ?st1 + i)
                      (build (credentials self ! (current_key ?st1 + i))) video_id = Raises e \<and>
                    quota_error e"
      by (auto simp: api_called_def dest!: spec [of _ "Suc i"])
  qed
  have "fetch_video self env video_id ?st1 =
           (Inr response,
            ?st1\<lparr>calls := calls ?st1 + k + 1, current_key := current_key ?st1 + k,
               youtube := build (credentials self ! (current_key ?st1 + k))\<rparr>)"
    using Suc.prems later by (intro Suc.IH) (simp_all add: api_called_def)
  with e Suc.prems(1) show ?case
    by (subst fetch_video.simps) (simp add: api_called_def list_getitem_def)
qed

lemma fetch_video_exhausted:
  assumes "current_key st + k = length (credentials self)" "0 < k"
    and "youtube st = build (credentials self ! current_key st)"
    and "\<forall>i<k. videos_list env (calls st + i)
                  (build (credentials self ! (current_key st + i))) video_id = Raises (es i) \<and>
                quota_error (es i)"
  shows "fetch_video self env video_id st =
           (Inl (es (k - 1)),
            st\<lparr>calls := calls st + k, current_key := length (credentials self),
               youtube := build (credentials self ! (length (credentials self) - 1))\<rparr>)"
  using assms
proof (induction k arbitrary: st es)
  case 0
  then show ?case by simp
next
  case (Suc k)
  from Suc.prems(4) have
    e: "videos_list env (calls st) (youtube st) video_id = Raises (es 0)" "quota_error (es 0)"
    using Suc.prems(3) by force+
  show ?case
  proof (cases k)
    case 0
    with Suc.prems(1) have last: "Suc (current_key st) = length (credentials self)"
      by simp
    then have "length (credentials self) - Suc 0 = current_key st" by arith
    with Suc.prems(3) have
      yt: "build (credentials self ! (length (credentials self) - Suc 0)) = youtube st"
      by simp
    from e 0 last show ?thesis
      by (subst fetch_video.simps) (simp add: api_called_def list_getitem_def yt)
  next
    case (Suc j)
    let ?st1 = "(api_called st)\<lparr>current_key := current_key st + 1,
                   youtube := build (credentials self ! (current_key st + 1))\<rparr>"
    have later: "\<forall>i<k. videos_list env (calls ?st1 + i)
                  (build (credentials self ! (current_key ?st1 + i))) video_id = Raises (es (Suc i)) \<and>
                quota_error (es (Suc i))"
    proof (intro allI impI)
      fix i assume "i < k"
      then have "Suc i < Suc k" by simp
      with Suc.prems(4) show "videos_list env (calls ?st1 + i)
                  (build (credentials self ! (current_key ?st1 + i))) video_id = Raises (es (Suc i)) \<and>
                quota_error (es (Suc i))"
        by (auto simp: api_called_def dest!: spec [of _ "Suc i"])
    qed
    have "fetch_video self env video_id ?st1 =
           (Inl (es (Suc (k - 1))),
            ?st1\<lparr>calls := calls ?st1 + k, current_key := length (credentials self),
               youtube := build (credentials self ! (length (credentials self) - 1))\<rparr>)"
      using Suc.prems Suc later by (intro Suc.IH [where es = "\<lambda>i. es (Suc i)"]) (simp_all add: api_called_def)
    with e Suc Suc.prems(1) show ?thesis
      by (subst fetch_video.simps) (simp add: api_called_def list_getitem_def)
  qed
qed

lemma fetch_video_returns:
  "videos_list env (calls st) (youtube st) video_id = Returns response \<Longrightarrow>
     fetch_video self env video_id st = (Inr response, api_called st)"
  by (subst fetch_video.simps) simp

lemma write_one_video_item:
  assumes "publishedAt_of item = Inr (JStr p)"
  shows "\<exists>x. write_video_items env [item] st =
           (Inr (), st\<lparr>ticks := ticks st + 1, json_writer := json_writer st @ [x]\<rparr>)"
proof -
  from assms obtain d where item: "item = JObj d"
    by (cases item) (simp_all add: publishedAt_of_def getitem_def)
  with assms obtain sn where sn: "map_of d ''snippet'' = Some sn"
    by (cases "map_of d ''snippet''") (simp_all add: publishedAt_of_def getitem_def)
  with assms item obtain sd where sd: "sn = JObj sd"
    by (cases sn) (simp_all add: publishedAt_of_def getitem_def)
  with assms item sn have p: "map_of sd ''publishedAt'' = Some (JStr p)"
    by (cases "map_of sd ''publishedAt''") (simp_all add: publishedAt_of_def getitem_def)
  from item sn sd p show ?thesis
    by (auto simp add: rewrite_publishedAt_def getitem_def setitem_def stamp_retrieved_at_def)
qed

lemma video_row_one_entity:
  assumes "videos_list env (calls st) (youtube st) video_id = Returns response"
    and "response_items response = Inr [item]"
    and "publishedAt_of item = Inr (JStr p)"
  shows "\<exists>x. video_rows self env (video_id # rest) st =
           video_rows self env rest
             (st\<lparr>num_videos := num_videos st + 1, calls := calls st + 1,
                 ticks := ticks st + 1, json_writer := json_writer st @ [x]\<rparr>)"
proof -
  let ?st1 = "api_called (st\<lparr>num_videos := num_videos st + 1\<rparr>)"
  from assms(1) have "fetch_video self env video_id (st\<lparr>num_videos := num_videos st + 1\<rparr>) =
      (Inr response, ?st1)"
    by (intro fetch_video_returns) simp
  moreover from write_one_video_item [OF assms(3)] obtain x where
    "write_video_items env [item] ?st1 =
       (Inr (), ?st1\<lparr>ticks := ticks ?st1 + 1, json_writer := json_writer ?st1 @ [x]\<rparr>)"
    by blast
  ultimately have "video_rows self env (video_id # rest) st =
           video_rows self env rest
             (st\<lparr>num_videos := num_videos st + 1, calls := calls st + 1,
                 ticks := ticks st + 1, json_writer := json_writer st @ [x]\<rparr>)"
    using assms(2) by (simp add: api_called_def)
  then show ?thesis by blast
qed

lemma video_row_no_entity:
  assumes "videos_list env (calls st) (youtube st) video_id = Returns response"
    and "response_items response = Inr []"
  shows "video_rows self env (video_id # rest) st =
           video_rows self env rest (st\<lparr>num_videos := num_videos st + 1, calls := calls st + 1\<rparr>)"
proof -
  from assms(1) have "fetch_video self env video_id (st\<lparr>num_videos := num_videos st + 1\<rparr>) =
      (Inr response, api_called (st\<lparr>num_videos := num_videos st + 1\<rparr>))"
    by (intro fetch_video_returns) simp
  with assms(2) show ?thesis by (simp add: api_called_def)
qed

lemma channel_rows_ok:
  "\<forall>t. valid_datetime (utcnow env t) \<Longrightarrow> channel_rows self env ids st = (r, st') \<Longrightarrow>
     list_all retrieved_at_ok (json_writer st) \<Longrightarrow> list_all retrieved_at_ok (json_writer st')"
proof (induction ids arbitrary: st)
  case Nil
  then show ?case by simp
next
  case (Cons cid rest)
  show ?case
  proof (cases "fetch_channel self env cid (st\<lparr>num_channels := num_channels st + 1\<rparr>)")
    case (Pair r1 st1)
    then have w1: "json_writer st1 = json_writer st" by (auto dest: fetch_channel_frame)
    show ?thesis
    proof (cases r1)
      case (Inl e)
      with Pair Cons.prems w1 show ?thesis by simp
    next
      case (Inr response)
      show ?thesis
      proof (cases "response_items response")
        case (Inl e)
        with Pair Inr Cons.prems w1 show ?thesis by simp
      next
        case items: (Inr items)
        obtain r2 st2 where w: "write_channel_items env items st1 = (r2, st2)" by force
        with Cons.prems w1 have ok: "list_all retrieved_at_ok (json_writer st2)"
          by (auto dest: write_channel_items_ok)
        show ?thesis
        proof (cases r2)
          case (Inl e)
          with Pair Inr items w Cons.prems ok show ?thesis by simp
        next
          case r2: (Inr u)
          with Pair Inr items w Cons.prems have "channel_rows self env rest st2 = (r, st')" by simp
          with Cons.IH Cons.prems(1) ok show ?thesis by blast
        qed
      qed
    qed
  qed
qed

lemma video_flow_ok:
  assumes "\<forall>t. valid_datetime (utcnow env t)" "list_all retrieved_at_ok (json_writer st)"
  shows "list_all retrieved_at_ok (json_writer (snd (collect_video_snippets self env st)))"
proof -
  obtain r st' where run: "collect_video_snippets self env st = (r, st')" by force
  with assms have "list_all retrieved_at_ok (json_writer st')"
    by (auto simp: collect_video_snippets_def video_work_set_eq emit_def Let_def
        split: sum.splits prod.splits if_splits dest!: video_rows_ok [rotated])
  with run show ?thesis by simp
qed

lemma channel_flow_ok:
  assumes "\<forall>t. valid_datetime (utcnow env t)" "list_all retrieved_at_ok (json_writer st)"
  shows "list_all retrieved_at_ok (json_writer (snd (collect_channel_stats self env st)))"
proof -
  obtain r st' where run: "collect_channel_stats self env st = (r, st')" by force
  with assms have "list_all retrieved_at_ok (json_writer st')"
    by (auto simp: collect_channel_stats_def channel_work_set_eq emit_def Let_def
        split: sum.splits prod.splits if_splits dest!: channel_rows_ok [rotated])
  with run show ?thesis by simp
qed

lemma rewrite_publishedAt_field:
  assumes "rewrite_publishedAt item = Inr item'"
  shows "\<exists>s. publishedAt_of item = Inr (JStr s) \<and>
             publishedAt_of item' = Inr (JStr (normalize_publishedAt s))"
proof -
  from assms obtain d where item: "item = JObj d"
    by (cases item) (simp_all add: rewrite_publishedAt_def getitem_def)
  with assms obtain sn where sn: "map_of d ''snippet'' = Some sn"
    by (cases "map_of d ''snippet''") (simp_all add: rewrite_publishedAt_def getitem_def)
  with assms item obtain sd where sd: "sn = JObj sd"
    by (cases sn) (simp_all add: rewrite_publishedAt_def getitem_def)
  with assms item sn obtain p where p: "map_of sd ''publishedAt'' = Some p"
    by (cases "map_of sd ''publishedAt''") (simp_all add: rewrite_publishedAt_def getitem_def)
  with assms item sn sd obtain s where s: "p = JStr s"
    by (cases p) (simp_all add: rewrite_publishedAt_def getitem_def)
  from assms item sn sd p s have
    "item' = JObj (AList.update ''snippet''
                     (JObj (AList.update ''publishedAt'' (JStr (normalize_publishedAt s)) sd)) d)"
    by (simp add: rewrite_publishedAt_def getitem_def setitem_def)
  with item sn sd p s show ?thesis
    by (simp add: publishedAt_of_def getitem_def update_conv')
qed

section \<open>What the flows write, and when they read the clock\<close>

lemma normalize_publishedAt_normal:
  "CHR ''T'' \<notin> set (normalize_publishedAt s) \<and>
   (normalize_publishedAt s = [] \<or> last (normalize_publishedAt s) \<noteq> CHR ''Z'')"
proof -
  let ?r = "rstrip ''Z'' s"
  have t: "CHR ''T'' \<notin> set (normalize_publishedAt s)"
    by (auto simp: normalize_publishedAt_def replace_char_def)
  have "normalize_publishedAt s = [] \<or> last (normalize_publishedAt s) \<noteq> CHR ''Z''"
  proof (cases "?r = []")
    case True
    then show ?thesis by (simp add: normalize_publishedAt_def replace_char_def)
  next
    case False
    with rstrip_last [of "''Z''" s] have "last ?r \<noteq> CHR ''Z''" by simp
    with False show ?thesis by (simp add: normalize_publishedAt_def replace_char_last)
  qed
  with t show ?thesis by simp
qed

lemma stamp_keeps_publishedAt:
  "stamp_retrieved_at now item = Inr r \<Longrightarrow> publishedAt_of r = publishedAt_of item"
  by (auto simp: stamp_retrieved_at_def setitem_def publishedAt_of_def getitem_def update_conv'
      split: json.splits)

lemma written_record:
  assumes "rewrite_publishedAt item = Inr item1" "stamp_retrieved_at now item1 = Inr r"
  shows "written_for item r \<and> publishedAt_ok r"
proof -
  from rewrite_publishedAt_field [OF assms(1)] obtain p where
    p: "publishedAt_of item = Inr (JStr p)"
       "publishedAt_of item1 = Inr (JStr (normalize_publishedAt p))"
    by blast
  with stamp_keeps_publishedAt [OF assms(2)] have
    "publishedAt_of r = Inr (JStr (normalize_publishedAt p))" by simp
  with p(1) normalize_publishedAt_normal [of p] show ?thesis
    by (simp add: written_for_def publishedAt_ok_def)
qed

lemma write_video_items_written:
  "write_video_items env items st = (Inr u, st') \<Longrightarrow>
     \<exists>new. json_writer st' = json_writer st @ new \<and> list_all2 written_for items new \<and>
           ticks st' = ticks st + length items"
proof (induction items arbitrary: st)
  case Nil
  then show ?case by simp
next
  case (Cons item items)
  from Cons.prems obtain item1 r where
    1: "rewrite_publishedAt item = Inr item1"
    and 2: "stamp_retrieved_at (utcnow env (ticks st)) item1 = Inr r"
    and 3: "write_video_items env items
              (st\<lparr>ticks := ticks st + 1, json_writer := json_writer st @ [r]\<rparr>) = (Inr u, st')"
    by (auto split: sum.splits)
  from Cons.IH [OF 3] obtain new where
    "json_writer st' = (json_writer st @ [r]) @ new" "list_all2 written_for items new"
    "ticks st' = ticks st + 1 + length items"
    by auto
  with written_record [OF 1 2] have
    "json_writer st' = json_writer st @ (r # new) \<and> list_all2 written_for (item # items) (r # new) \<and>
     ticks st' = ticks st + length (item # items)"
    by simp
  then show ?case by blast
qed

lemma write_channel_items_written:
  "write_channel_items env items st = (Inr u, st') \<Longrightarrow>
     \<exists>new. json_writer st' = json_writer st @ new \<and> length new = length items \<and>
           ticks st' = ticks st + length items"
proof (induction items arbitrary: st)
  case Nil
  then show ?case by simp
next
  case (Cons item items)
  from Cons.prems obtain r where
    2: "stamp_retrieved_at (utcnow env (ticks st)) item = Inr r"
    and 3: "write_channel_items env items
              (st\<lparr>ticks := ticks st + 1, json_writer := json_writer st @ [r]\<rparr>) = (Inr u, st')"
    by (auto split: sum.splits)
  from Cons.IH [OF 3] obtain new where
    "json_writer st' = (json_writer st @ [r]) @ new" "length new = length items"
    "ticks st' = ticks st + 1 + length items"
    by auto
  then have
    "json_writer st' = json_writer st @ (r # new) \<and> length (r # new) = length (item # items) \<and>
     ticks st' = ticks st + length (item # items)"
    by simp
  then show ?case by blast
qed

lemma write_video_items_published:
  "write_video_items env items st = (r, st') \<Longrightarrow>
     list_all publishedAt_ok (json_writer st) \<Longrightarrow> list_all publishedAt_ok (json_writer st')"
  by (induction items arbitrary: st) (auto split: sum.splits dest: written_record)

lemma video_rows_published:
  "video_rows self env ids st = (r, st') \<Longrightarrow>
     list_all publishedAt_ok (json_writer st) \<Longrightarrow> list_all publishedAt_ok (json_writer st')"
proof (induction ids arbitrary: st)
  case Nil
  then show ?case by simp
next
  case (Cons vid rest)
  obtain r1 st1 where f: "fetch_video self env vid (st\<lparr>num_videos := num_videos st + 1\<rparr>) = (r1, st1)"
    by force
  then have w1: "json_writer st1 = json_writer st" by (auto dest: fetch_video_frame)
  show ?case
  proof (cases r1)
    case (Inl e)
    with f Cons.prems w1 show ?thesis by simp
  next
    case (Inr response)
    show ?thesis
    proof (cases "response_items response")
      case (Inl e)
      with f Inr Cons.prems w1 show ?thesis by simp
    next
      case items: (Inr items)
      obtain r2 st2 where w: "write_video_items env items st1 = (r2, st2)" by force
      with Cons.prems w1 have ok: "list_all publishedAt_ok (json_writer st2)"
        by (auto dest: write_video_items_published)
      show ?thesis
      proof (cases r2)
        case (Inl e)
        with f Inr items w Cons.prems ok show ?thesis by simp
      next
        case r2: (Inr u)
        with f Inr items w Cons.prems have "video_rows self env rest st2 = (r, st')" by simp
        with Cons.IH ok show ?thesis by blast
      qed
    qed
  qed
qed

lemma video_flow_published:
  assumes "list_all publishedAt_ok (json_writer st)"
  shows "list_all publishedAt_ok (json_writer (snd (collect_video_snippets self env st)))"
proof -
  obtain r st' where run: "collect_video_snippets self env st = (r, st')" by force
  with assms have "list_all publishedAt_ok (json_writer st')"
    by (auto simp: collect_video_snippets_def video_work_set_eq emit_def Let_def
        split: sum.splits prod.splits if_splits dest!: video_rows_published)
  with run show ?thesis by simp
qed

lemma video_rows_ticks:
  "video_rows self env ids st = (Inr u, st') \<Longrightarrow>
     ticks st' + length (json_writer st) = ticks st + length (json_writer st')"
proof (induction ids arbitrary: st)
  case Nil
  then show ?case by simp
next
  case (Cons vid rest)
  from Cons.prems obtain response st1 items st2 where
    f: "fetch_video self env vid (st\<lparr>num_videos := num_videos st + 1\<rparr>) = (Inr response, st1)"
    and w: "write_video_items env items st1 = (Inr (), st2)"
    and r: "video_rows self env rest st2 = (Inr u, st')"
    by (auto split: prod.splits sum.splits)
  from fetch_video_frame [OF f] have "ticks st1 = ticks st" "json_writer st1 = json_writer st"
    by simp_all
  moreover from write_video_items_written [OF w] have
    "ticks st2 + length (json_writer st1) = ticks st1 + length (json_writer st2)"
    by (auto dest: list_all2_lengthD)
  moreover note Cons.IH [OF r]
  ultimately show ?case by simp
qed

lemma channel_rows_ticks:
  "channel_rows self env ids st = (Inr u, st') \<Longrightarrow>
     ticks st' + length (json_writer st) = ticks st + length (json_writer st')"
proof (induction ids arbitrary: st)
  case Nil
  then show ?case by simp
next
  case (Cons cid rest)
  from Cons.prems obtain response st1 items st2 where
    f: "fetch_channel self env cid (st\<lparr>num_channels := num_channels st + 1\<rparr>) = (Inr response, st1)"
    and w: "write_channel_items env items st1 = (Inr (), st2)"
    and r: "channel_rows self env rest st2 = (Inr u, st')"
    by (auto split: prod.splits sum.splits)
  from fetch_channel_frame [OF f] have "ticks st1 = ticks st" "json_writer st1 = json_writer st"
    by simp_all
  moreover from write_channel_items_written [OF w] have
    "ticks st2 + length (json_writer st1) = ticks st1 + length (json_writer st2)"
    by auto
  moreover note Cons.IH [OF r]
  ultimately show ?case by simp
qed

lemma video_flow_commit_reading:
  assumes "collect_video_snippets self env st = (Inr u, st')"
  shows "ticks st' - 1 = ticks st + length (json_writer st')"
  using assms
  by (auto simp: collect_video_snippets_def video_work_set_eq emit_def Let_def
      split: sum.splits prod.splits if_splits dest!: video_rows_ticks)

lemma channel_flow_commit_reading:
  assumes "collect_channel_stats self env st = (Inr u, st')"
  shows "ticks st' - 1 = ticks st + length (json_writer st')"
  using assms
  by (auto simp: collect_channel_stats_def channel_work_set_eq emit_def Let_def
      split: sum.splits prod.splits if_splits dest!: channel_rows_ticks)

lemma status_403_is_quota_error: "quota_error (HttpError 403 uri reason)"
  by (simp add: quota_error_def str_HttpError_def dec.simps digit_char_def)

section \<open>Bounds and propagation in the retry loops\<close>

text \<open>
  Both retry loops, entered with a current key inside the pool, make at least one and at
  most as many requests as credentials remain, one per round. The video-snippet loop ends
  with the response of its last request or with the exception that request raised, and
  if that is a quota failure the pool is used up. The channel-stats loop ends with the
  response of its last request or with an exception after that request raised.
\<close>

lemma fetch_loops_bounded:
  "current_key st < length (credentials self) \<longrightarrow>
   (case fetch_video self env video_id st of
      (r, st') \<Rightarrow>
        calls st < calls st' \<and>
        calls st' \<le> calls st + (length (credentials self) - current_key st) \<and>
        (case r of
           Inr response \<Rightarrow>
             videos_list env (calls st' - 1) (youtube st') video_id = Returns response \<and>
             current_key st' < length (credentials self)
         | Inl e \<Rightarrow>
             videos_list env (calls st' - 1) (youtube st') video_id = Raises e \<and>
             (quota_error e \<longrightarrow> current_key st' = length (credentials self)))) \<and>
   (case fetch_channel self env channel_id st of
      (r, st') \<Rightarrow>
        calls st < calls st' \<and>
        calls st' \<le> calls st + (length (credentials self) - current_key st) \<and>
        (case r of
           Inr response \<Rightarrow>
             channels_list env (calls st' - 1) (youtube st') channel_id = Returns response \<and>
             current_key st' < length (credentials self)
         | Inl e \<Rightarrow> (\<exists>a. channels_list env (calls st' - 1) (youtube st') channel_id = Raises a)))"
proof
  assume inv: "current_key st < length (credentials self)"
  obtain r st' where v: "fetch_video self env video_id st = (r, st')" by force
  obtain q st'' where c: "fetch_channel self env channel_id st = (q, st'')" by force
  from fetch_video_bound [OF inv v] fetch_channel_bound [OF inv c] inv v c
  show "(case fetch_video self env video_id st of
      (r, st') \<Rightarrow>
        calls st < calls st' \<and>
        calls st' \<le> calls st + (length (credentials self) - current_key st) \<and>
        (case r of
           Inr response \<Rightarrow>
             videos_list env (calls st' - 1) (youtube st') video_id = Returns response \<and>
             current_key st' < length (credentials self)
         | Inl e \<Rightarrow>
             videos_list env (calls st' - 1) (youtube st') video_id = Raises e \<and>
             (quota_error e \<longrightarrow> current_key st' = length (credentials self)))) \<and>
   (case fetch_channel self env channel_id st of
      (r, st') \<Rightarrow>
        calls st < calls st' \<and>
        calls st' \<le> calls st + (length (credentials self) - current_key st) \<and>
        (case r of
           Inr response \<Rightarrow>
             channels_list env (calls st' - 1) (youtube st') channel_id = Returns response \<and>
             current_key st' < length (credentials self)
         | Inl e \<Rightarrow> (\<exists>a. channels_list env (calls st' - 1) (youtube st') channel_id = Raises a)))"
    by (auto split: sum.splits)
qed

text \<open>
  An exception whose text the test of line 158 does not take for a quota failure is
  returned as it is after this one request, with the current key and the client
  unchanged; the loop over the identifiers and the flow end with it.
\<close>

lemma other_failures_propagate:
  "(videos_list env (calls st) (youtube st) video_id = Raises e \<and> \<not> quota_error e \<longrightarrow>
      fetch_video self env video_id st = (Inl e, api_called st) \<and>
      video_rows self env (video_id # rest) st =
        (Inl e, api_called (st\<lparr>num_videos := num_videos st + 1\<rparr>))) \<and>
   (channels_list env (calls st) (youtube st) channel_id = Raises e \<and> \<not> quota_error e \<longrightarrow>
      fetch_channel self env channel_id st = (Inl e, api_called st) \<and>
      channel_rows self env (channel_id # rest) st =
        (Inl e, api_called (st\<lparr>num_channels := num_channels st + 1\<rparr>))) \<and>
   (credentials self = c # cs \<and>
    video_rows self env (snd (fst (video_work_set env st)))
      ((snd (video_work_set env st))
         \<lparr>current_key := 0, youtube := build c, num_videos := 0, json_writer := []\<rparr>) = (Inl e, st') \<longrightarrow>
      collect_video_snippets self env st = (Inl e, st')) \<and>
   (credentials self = c # cs \<and>
    channel_rows self env (snd (fst (channel_work_set env st)))
      ((snd (channel_work_set env st))
         \<lparr>current_key := 0, youtube := build c, num_channels := 0, json_writer := []\<rparr>) = (Inl e, st') \<longrightarrow>
      collect_channel_stats self env st = (Inl e, st'))"
  by (auto simp: fetch_video.simps [of self env video_id] fetch_channel_unfold api_called_def
        collect_video_snippets_def collect_channel_stats_def list_getitem_def
      split: prod.splits)

section \<open>Evaluating concrete runs\<close>

lemmas run_defs =
  collect_video_snippets_def collect_channel_stats_def video_work_set_eq channel_work_set_eq
  table_exists_def list_getitem_def list_getitem_str_def build_def api_called_def emit_def
  fetch_video.simps fetch_channel_unfold quota_error_def str_HttpError_def
  response_items_def iterate_def rewrite_publishedAt_def stamp_retrieved_at_def
  getitem_def setitem_def normalize_publishedAt_def rstrip_def replace_char_def
  retrieved_at_def creation_date_def directive_def zpad_def dec.simps digit_char_def
  video_snippet_key_def channel_stats_key_def Let_def

lemmas scene_defs =
  initial_def may_first_def video_item_def channel_item_def entities_def first_run_def
  later_run_def videos_uri_def channels_uri_def first_key_exhausted_def
  first_key_server_error_def api_down_def one_key_def two_keys_def


section \<open>The claims\<close>

text \<open>
  C1, as the code has it. A run of either flow that commits a batch of M records uploads
  it under the key of the flow's pattern, \<^verbatim>\<open>youtube_video_snippet/<date>-<count>.json.bz2\<close>
  or \<^verbatim>\<open>youtube_channel_stats/creation_date=<date>/<count>.json.bz2\<close>. The date is
  the clock's at the commit, which is the reading that follows the M readings made for
  the M records, and has the form \<^verbatim>\<open>YYYY-MM-DD\<close>. The count is the number of
  identifiers of the work set, each of which was processed once, whatever M is:
  \<^verbatim>\<open>num_videos\<close> and \<^verbatim>\<open>num_channels\<close> count identifiers, not records. Two keys of
  one flow with different counts are different, whatever their dates.
\<close>

theorem storage_key_counts_identifiers:
  "(collect_video_snippets self env st = (Inr u, st') \<longrightarrow>
      trace st' = trace (snd (video_work_set env st)) @
        [Compress,
         Upload_file (s3_data self)
           (video_snippet_key
              (creation_date (utcnow env (ticks st + length (json_writer st'))))
              (length (snd (fst (video_work_set env st))))),
         Query_athena_and_wait [CREATE_VIDEO_SNIPPET_JSON (s3_data self)]]) \<and>
   (collect_channel_stats self env st = (Inr u, st') \<longrightarrow>
      trace st' = trace (snd (channel_work_set env st)) @
        [Compress,
         Upload_file (s3_data self)
           (channel_stats_key
              (creation_date (utcnow env (ticks st + length (json_writer st'))))
              (length (snd (fst (channel_work_set env st))))),
         Query_athena_and_wait [DROP_TABLE_IF_EXISTS ''youtube_channel_stats''],
         Query_athena_and_wait [CREATE_CHANNEL_STATS_JSON (s3_data self)],
         Query_athena_and_wait [MSCK_REPAIR_TABLE ''youtube_channel_stats'']]) \<and>
   video_snippet_key d n = ''youtube_video_snippet/'' @ d @ ''-'' @ dec n @ ''.json.bz2'' \<and>
   channel_stats_key d n =
     ''youtube_channel_stats/creation_date='' @ d @ ''/'' @ dec n @ ''.json.bz2'' \<and>
   (valid_datetime now \<longrightarrow> matches ''YYYY-MM-DD'' (creation_date now)) \<and>
   (n1 \<noteq> n2 \<longrightarrow>
      video_snippet_key d1 n1 \<noteq> video_snippet_key d2 n2 \<and>
      channel_stats_key d1 n1 \<noteq> channel_stats_key d2 n2)"
proof -
  have v: "collect_video_snippets self env st = (Inr u, st') \<longrightarrow>
      trace st' = trace (snd (video_work_set env st)) @
        [Compress,
         Upload_file (s3_data self)
           (video_snippet_key
              (creation_date (utcnow env (ticks st + length (json_writer st'))))
              (length (snd (fst (video_work_set env st))))),
         Query_athena_and_wait [CREATE_VIDEO_SNIPPET_JSON (s3_data self)]]"
  proof
    assume run: "collect_video_snippets self env st = (Inr u, st')"
    from video_flow_trace [OF run] video_flow_commit_reading [OF run]
    show "trace st' = trace (snd (video_work_set env st)) @
        [Compress,
         Upload_file (s3_data self)
           (video_snippet_key
              (creation_date (utcnow env (ticks st + length (json_writer st'))))
              (length (snd (fst (video_work_set env st))))),
         Query_athena_and_wait [CREATE_VIDEO_SNIPPET_JSON (s3_data self)]]"
      by simp
  qed
  have c: "collect_channel_stats self env st = (Inr u, st') \<longrightarrow>
      trace st' = trace (snd (channel_work_set env st)) @
        [Compress,
         Upload_file (s3_data self)
           (channel_stats_key
              (creation_date (utcnow env (ticks st + length (json_writer st'))))
              (length (snd (fst (channel_work_set env st))))),
         Query_athena_and_wait [DROP_TABLE_IF_EXISTS ''youtube_channel_stats''],
         Query_athena_and_wait [CREATE_CHANNEL_STATS_JSON (s3_data self)],
         Query_athena_and_wait [MSCK_REPAIR_TABLE ''youtube_channel_stats'']]"
  proof
    assume run: "collect_channel_stats self env st = (Inr u, st')"
    from channel_flow_trace [OF run] channel_flow_commit_reading [OF run]
    show "trace st' = trace (snd (channel_work_set env st)) @
        [Compress,
         Upload_file (s3_data self)
           (channel_stats_key
              (creation_date (utcnow env (ticks st + length (json_writer st'))))
              (length (snd (fst (channel_work_set env st))))),
         Query_athena_and_wait [DROP_TABLE_IF_EXISTS ''youtube_channel_stats''],
         Query_athena_and_wait [CREATE_CHANNEL_STATS_JSON (s3_data self)],
         Query_athena_and_wait [MSCK_REPAIR_TABLE ''youtube_channel_stats'']]"
      by simp
  qed
  have k: "video_snippet_key d n = ''youtube_video_snippet/'' @ d @ ''-'' @ dec n @ ''.json.bz2''"
    "channel_stats_key d n =
       ''youtube_channel_stats/creation_date='' @ d @ ''/'' @ dec n @ ''.json.bz2''"
    by (simp_all add: video_snippet_key_def channel_stats_key_def)
  have i: "n1 \<noteq> n2 \<longrightarrow>
      video_snippet_key d1 n1 \<noteq> video_snippet_key d2 n2 \<and>
      channel_stats_key d1 n1 \<noteq> channel_stats_key d2 n2"
    using video_snippet_key_inj [of d1 n1 d2 n2] channel_stats_key_inj [of d1 n1 d2 n2] by blast
  from v c k i creation_date_matches [of now] show ?thesis by blast
qed

text \<open>
  The later run with one credential: both flows commit a batch for two identifiers, and
  the clock shows a valid date.
\<close>

theorem storage_key_counts_identifiers_witness:
  "trace (snd (collect_video_snippets one_key later_run initial)) =
     trace (snd (video_work_set later_run initial)) @
       [Compress,
        Upload_file ''data''
          (video_snippet_key
             (creation_date (utcnow later_run (ticks initial +
                length (json_writer (snd (collect_video_snippets one_key later_run initial))))))
             2),
        Query_athena_and_wait [CREATE_VIDEO_SNIPPET_JSON ''data'']] \<and>
   trace (snd (collect_channel_stats one_key later_run initial)) =
     trace (snd (channel_work_set later_run initial)) @
       [Compress,
        Upload_file ''data''
          (channel_stats_key
             (creation_date (utcnow later_run (ticks initial +
                length (json_writer (snd (collect_channel_stats one_key later_run initial))))))
             2),
        Query_athena_and_wait [DROP_TABLE_IF_EXISTS ''youtube_channel_stats''],
        Query_athena_and_wait [CREATE_CHANNEL_STATS_JSON ''data''],
        Query_athena_and_wait [MSCK_REPAIR_TABLE ''youtube_channel_stats'']] \<and>
   length (json_writer (snd (collect_video_snippets one_key later_run initial))) = 1 \<and>
   length (json_writer (snd (collect_channel_stats one_key later_run initial))) = 1 \<and>
   valid_datetime may_first \<and> matches ''YYYY-MM-DD'' (creation_date may_first) \<and>
   video_snippet_key ''2021-05-01'' 2 \<noteq> video_snippet_key ''2021-05-01'' 3 \<and>
   channel_stats_key ''2021-05-01'' 2 \<noteq> channel_stats_key ''2021-05-02'' 3"
proof -
  let ?v = "snd (collect_video_snippets one_key later_run initial)"
  let ?c = "snd (collect_channel_stats one_key later_run initial)"
  have e: "fst (collect_video_snippets one_key later_run initial) = Inr ()"
    "fst (collect_channel_stats one_key later_run initial) = Inr ()"
    by (simp_all add: run_defs scene_defs)
  have v: "collect_video_snippets one_key later_run initial = (Inr (), ?v)"
    and c: "collect_channel_stats one_key later_run initial = (Inr (), ?c)"
    using e by (simp_all only: prod_eq_iff fst_conv snd_conv simp_thms)
  have n: "length (snd (fst (video_work_set later_run initial))) = 2"
    "length (snd (fst (channel_work_set later_run initial))) = 2"
    "s3_data one_key = ''data''"
    by (simp_all add: video_work_set_eq channel_work_set_eq scene_defs table_exists_def)
  have l: "length (json_writer ?v) = 1" "length (json_writer ?c) = 1"
    by (simp_all add: run_defs scene_defs)
  have d: "valid_datetime may_first"
    by (simp add: valid_datetime_def may_first_def)
  have ne: "(2::nat) \<noteq> 3" by simp
  note T1 = storage_key_counts_identifiers [of one_key later_run initial "()" ?v
      "''2021-05-01''" 2 may_first 2 3 "''2021-05-01''" "''2021-05-01''", unfolded n]
  note T2 = storage_key_counts_identifiers [of one_key later_run initial "()" ?c
      "''2021-05-01''" 2 may_first 2 3 "''2021-05-01''" "''2021-05-02''", unfolded n]
  note 1 = T1 [THEN conjunct1, THEN mp, OF v]
  note 2 = T2 [THEN conjunct2, THEN conjunct1, THEN mp, OF c]
  note 3 = T1 [THEN conjunct2, THEN conjunct2, THEN conjunct2, THEN conjunct2, THEN conjunct1,
      THEN mp, OF d]
  note 4 = T1 [THEN conjunct2, THEN conjunct2, THEN conjunct2, THEN conjunct2, THEN conjunct2,
      THEN mp, OF ne, THEN conjunct1]
  note 5 = T2 [THEN conjunct2, THEN conjunct2, THEN conjunct2, THEN conjunct2, THEN conjunct2,
      THEN mp, OF ne, THEN conjunct2]
  from 1 2 l d 3 4 5 show ?thesis by (intro conjI)
qed

text \<open>
  C1 as stated fails. In the later run the channel flow resolves the two channels
  \<^verbatim>\<open>x\<close> and \<^verbatim>\<open>y\<close>; the API has an entity for \<^verbatim>\<open>x\<close> only. The batch holds one
  record, and it is uploaded under a key whose count is 2.
\<close>

theorem key_count_is_not_record_count:
  "fst (collect_channel_stats one_key later_run initial) = Inr () \<and>
   length (json_writer (snd (collect_channel_stats one_key later_run initial))) = 1 \<and>
   trace (snd (collect_channel_stats one_key later_run initial)) =
     [Query_athena_and_download [SELECT_DISTINCT_CHANNEL],
      Query_athena_and_get_result [SELECT_COUNT_DISTINCT_CHANNEL],
      Compress,
      Upload_file ''data'' ''youtube_channel_stats/creation_date=2021-05-01/2.json.bz2'',
      Query_athena_and_wait [DROP_TABLE_IF_EXISTS ''youtube_channel_stats''],
      Query_athena_and_wait [CREATE_CHANNEL_STATS_JSON ''data''],
      Query_athena_and_wait [MSCK_REPAIR_TABLE ''youtube_channel_stats'']] \<and>
   Upload_file ''data'' (channel_stats_key ''2021-05-01'' 1) \<notin>
     set (trace (snd (collect_channel_stats one_key later_run initial)))"
  by (simp add: run_defs scene_defs)

text \<open>
  C2, as the code has it. The crawl yields exactly \<^verbatim>\<open>a\<close>, \<^verbatim>\<open>b\<close>, \<^verbatim>\<open>c\<close>, the table
  \<^verbatim>\<open>youtube_video_snippet\<close> does not exist, there is one credential, and the API returns
  one entity (with a \<^verbatim>\<open>publishedAt\<close> string) for \<^verbatim>\<open>a\<close> and for \<^verbatim>\<open>b\<close> and an empty
  entity list for \<^verbatim>\<open>c\<close>. Then the video-snippet flow succeeds, writes exactly 2 records,
  uploads them under the key whose count is 3, the number of identifiers processed, and
  after the upload sends the create-if-absent statement, exactly once.
\<close>

theorem three_identifiers_end_to_end:
  assumes "\<not> table_exists env ''youtube_video_snippet''"
    and "validated_url_v env = [''a'', ''b'', ''c'']"
    and "credentials self = [c]"
    and "\<forall>n key. videos_list env n key ''a'' = Returns ra"
    and "response_items ra = Inr [ia]" and "publishedAt_of ia = Inr (JStr pa)"
    and "\<forall>n key. videos_list env n key ''b'' = Returns rb"
    and "response_items rb = Inr [ib]" and "publishedAt_of ib = Inr (JStr pb)"
    and "\<forall>n key. videos_list env n key ''c'' = Returns rc"
    and "response_items rc = Inr []"
  shows "\<exists>st'. collect_video_snippets self env st = (Inr (), st') \<and>
           length (json_writer st') = 2 \<and>
           trace st' = trace st @
             [Table_exists ''youtube_video_snippet'',
              Query_athena_and_get_result [SELECT_COUNT_YOUTUBE_VIDEOS],
              Query_athena_and_download [SELECT_YOUTUBE_VIDEOS],
              Compress,
              Upload_file (s3_data self)
                (video_snippet_key (creation_date (utcnow env (ticks st + 2))) 3),
              Query_athena_and_wait [CREATE_VIDEO_SNIPPET_JSON (s3_data self)]] \<and>
           count_list (drop (length (trace st)) (trace st'))
             (Query_athena_and_wait [CREATE_VIDEO_SNIPPET_JSON (s3_data self)]) = 1"
proof -
  let ?st1 = "snd (video_work_set env st)"
  let ?st0 = "?st1\<lparr>current_key := 0, youtube := build c, num_videos := 0, json_writer := []\<rparr>"
  from assms(1,2) have ws: "video_work_set env st =
     ((3, [''a'', ''b'', ''c'']),
      st\<lparr>trace := trace st @
         [Table_exists ''youtube_video_snippet'',
          Query_athena_and_get_result [SELECT_COUNT_YOUTUBE_VIDEOS],
          Query_athena_and_download [SELECT_YOUTUBE_VIDEOS]]\<rparr>)"
    by (simp add: video_work_set_eq)
  from assms(4,5,6) obtain xa where
    a: "video_rows self env [''a'', ''b'', ''c''] ?st0 = video_rows self env [''b'', ''c'']
          (?st0\<lparr>num_videos := num_videos ?st0 + 1, calls := calls ?st0 + 1,
                 ticks := ticks ?st0 + 1, json_writer := json_writer ?st0 @ [xa]\<rparr>)"
    (is "_ = video_rows _ _ _ ?sta")
    using video_row_one_entity [of env ?st0 "''a''" ra ia pa self "[''b'', ''c'']"] by auto
  from assms(7,8,9) obtain xb where
    b: "video_rows self env [''b'', ''c''] ?sta = video_rows self env [''c'']
          (?sta\<lparr>num_videos := num_videos ?sta + 1, calls := calls ?sta + 1,
                 ticks := ticks ?sta + 1, json_writer := json_writer ?sta @ [xb]\<rparr>)"
    (is "_ = video_rows _ _ _ ?stb")
    using video_row_one_entity [of env ?sta "''b''" rb ib pb self "[''c'']"] by auto
  from assms(10,11) have
    c: "video_rows self env [''c''] ?stb = video_rows self env []
          (?stb\<lparr>num_videos := num_videos ?stb + 1, calls := calls ?stb + 1\<rparr>)"
    using video_row_no_entity [of env ?stb "''c''" rc self "[]"] by auto
  from a b c have rows: "video_rows self env [''a'', ''b'', ''c''] ?st0 =
      (Inr (), ?st0\<lparr>num_videos := 3, calls := calls st + 3, ticks := ticks st + 2,
                     json_writer := [xa, xb]\<rparr>)"
    by (simp add: ws)
  show ?thesis
    using rows assms(3)
    by (simp add: collect_video_snippets_def ws list_getitem_def emit_def Let_def)
qed

text \<open>
  The first run with one credential is such a scenario.
\<close>

theorem three_identifiers_end_to_end_witness:
  "\<exists>st'. collect_video_snippets one_key first_run initial = (Inr (), st') \<and>
         length (json_writer st') = 2 \<and>
         trace st' =
           [Table_exists ''youtube_video_snippet'',
            Query_athena_and_get_result [SELECT_COUNT_YOUTUBE_VIDEOS],
            Query_athena_and_download [SELECT_YOUTUBE_VIDEOS],
            Compress,
            Upload_file ''data'' (video_snippet_key ''2021-05-01'' 3),
            Query_athena_and_wait [CREATE_VIDEO_SNIPPET_JSON ''data'']] \<and>
         count_list (trace st') (Query_athena_and_wait [CREATE_VIDEO_SNIPPET_JSON ''data'']) = 1"
proof -
  have h1: "\<not> table_exists first_run ''youtube_video_snippet''"
    and h2: "validated_url_v first_run = [''a'', ''b'', ''c'']"
    and h3: "credentials one_key = [\<lparr>developer_key = ''k0''\<rparr>]"
    by (simp_all add: table_exists_def first_run_def one_key_def)
  have a: "\<forall>n key. videos_list first_run n key ''a'' = Returns (entities [video_item ''a''])"
    and b: "\<forall>n key. videos_list first_run n key ''b'' = Returns (entities [video_item ''b''])"
    and c: "\<forall>n key. videos_list first_run n key ''c'' = Returns (entities [])"
    by (simp_all add: first_run_def)
  have i: "response_items (entities [video_item ''a'']) = Inr [video_item ''a'']"
    "response_items (entities [video_item ''b'']) = Inr [video_item ''b'']"
    "response_items (entities []) = Inr []"
    by (simp_all add: response_items_def entities_def iterate_def)
  have p: "publishedAt_of (video_item ''a'') = Inr (JStr ''2021-05-01T12:00:00Z'')"
    "publishedAt_of (video_item ''b'') = Inr (JStr ''2021-05-01T12:00:00Z'')"
    by (simp_all add: publishedAt_of_def video_item_def getitem_def)
  have n: "trace initial = []" "s3_data one_key = ''data''"
    "creation_date (utcnow first_run (ticks initial + 2)) = ''2021-05-01''"
    by (simp_all add: initial_def one_key_def first_run_def may_first_def creation_date_def
        directive_def zpad_def dec.simps digit_char_def)
  note T = three_identifiers_end_to_end [OF h1 h2 h3 a i(1) p(1) b i(2) p(2) c i(3), of initial,
      unfolded n]
  then show ?thesis by simp
qed

text \<open>
  C2 as stated fails: in the first run, which is the scenario of the claim, the batch of
  2 records is uploaded under \<^verbatim>\<open>youtube_video_snippet/2021-05-01-3.json.bz2\<close>, not
  under a key whose count is 2.
\<close>

theorem three_identifiers_key_count:
  "fst (collect_video_snippets one_key first_run initial) = Inr () \<and>
   length (json_writer (snd (collect_video_snippets one_key first_run initial))) = 2 \<and>
   trace (snd (collect_video_snippets one_key first_run initial)) =
     [Table_exists ''youtube_video_snippet'',
      Query_athena_and_get_result [SELECT_COUNT_YOUTUBE_VIDEOS],
      Query_athena_and_download [SELECT_YOUTUBE_VIDEOS],
      Compress,
      Upload_file ''data'' ''youtube_video_snippet/2021-05-01-3.json.bz2'',
      Query_athena_and_wait [CREATE_VIDEO_SNIPPET_JSON ''data'']] \<and>
   Upload_file ''data'' (video_snippet_key ''2021-05-01'' 2) \<notin>
     set (trace (snd (collect_video_snippets one_key first_run initial)))"
  by (simp add: run_defs scene_defs)

text \<open>
  C3 at a pool of two credentials whose first has no quota left. The channel-stats loop,
  fetching channel \<^verbatim>\<open>x\<close>, makes one request and raises \<^verbatim>\<open>TypeError\<close> at line 229
  instead of rotating to the second credential, and the channel-stats flow fails with it.
  The video-snippet loop on the same pool rotates once and returns the response obtained
  with the second credential (\<open>fetch_video_rotation\<close> and \<open>fetch_video_exhausted\<close>
  above show that it does so for every pool), and its flow succeeds.
\<close>

theorem channel_rotation_raises_TypeError:
  "fetch_channel two_keys first_key_exhausted ''x'' (initial\<lparr>youtube := ''k0''\<rparr>) =
     (Inl TypeError, initial\<lparr>youtube := ''k0'', calls := 1, current_key := 1\<rparr>) \<and>
   fst (collect_channel_stats two_keys first_key_exhausted initial) = Inl TypeError \<and>
   fetch_video two_keys first_key_exhausted ''b'' (initial\<lparr>youtube := ''k0''\<rparr>) =
     (Inr (entities [video_item ''b'']), initial\<lparr>youtube := ''k1'', calls := 2, current_key := 1\<rparr>) \<and>
   fst (collect_video_snippets two_keys first_key_exhausted initial) = Inr ()"
  by (simp add: run_defs scene_defs)

text \<open>
  C4, as the code has it. The video-snippet flow resolves exactly \<open>U - P\<close> when the table
  \<^verbatim>\<open>youtube_video_snippet\<close> exists and exactly \<open>U\<close> when it does not, \<open>U\<close> being the
  video identifiers of the crawl and \<open>P\<close> the persisted ones. The channel-stats flow
  resolves exactly \<open>U\<close>, the channel identifiers of the persisted snippets, whether or not
  \<^verbatim>\<open>youtube_channel_stats\<close> exists and whatever it holds. In both flows the resolved
  list has no duplicates, and the reported count is its length.
\<close>

theorem work_set_resolution:
  "(case video_work_set env st of
      ((video_count, video_ids), st1) \<Rightarrow>
        set video_ids =
          (if table_exists env ''youtube_video_snippet''
           then set (validated_url_v env) - set (snippet_id env)
           else set (validated_url_v env)) \<and>
        distinct video_ids \<and> video_count = length video_ids) \<and>
   (case channel_work_set env st of
      ((channel_count, channel_ids), st1) \<Rightarrow>
        set channel_ids = set (snippet_channelId env) \<and>
        distinct channel_ids \<and> channel_count = length channel_ids)"
  by (auto simp: video_work_set_eq channel_work_set_eq length_remdups_card_conv simp del: length_remdups_eq)

text \<open>
  The work sets of the later run, where the table exists, and of the first run, where it
  does not.
\<close>

theorem work_set_resolution_witness:
  "set (snd (fst (video_work_set later_run initial))) =
     set (validated_url_v later_run) - set (snippet_id later_run) \<and>
   snd (fst (video_work_set later_run initial)) = [''b'', ''c''] \<and>
   fst (fst (video_work_set later_run initial)) = 2 \<and>
   set (snd (fst (video_work_set first_run initial))) = set (validated_url_v first_run) \<and>
   fst (fst (video_work_set first_run initial)) = 3 \<and>
   set (snd (fst (channel_work_set later_run initial))) = set (snippet_channelId later_run) \<and>
   snd (fst (channel_work_set later_run initial)) = [''x'', ''y''] \<and>
   fst (fst (channel_work_set later_run initial)) = 2"
proof -
  have t: "table_exists later_run ''youtube_video_snippet''"
    "\<not> table_exists first_run ''youtube_video_snippet''"
    by (simp_all add: table_exists_def scene_defs)
  have r: "snd (fst (video_work_set later_run initial)) = [''b'', ''c'']"
    "snd (fst (channel_work_set later_run initial)) = [''x'', ''y'']"
    "length (snd (fst (video_work_set first_run initial))) = 3"
    by (simp_all add: video_work_set_eq channel_work_set_eq table_exists_def scene_defs)
  note T1 = work_set_resolution [of later_run initial, unfolded case_prod_beta]
  note T2 = work_set_resolution [of first_run initial, unfolded case_prod_beta]
  from T1 t(1) have 1: "set (snd (fst (video_work_set later_run initial))) =
     set (validated_url_v later_run) - set (snippet_id later_run)"
    "fst (fst (video_work_set later_run initial)) = length (snd (fst (video_work_set later_run initial)))"
    "set (snd (fst (channel_work_set later_run initial))) = set (snippet_channelId later_run)"
    "fst (fst (channel_work_set later_run initial)) = length (snd (fst (channel_work_set later_run initial)))"
    by (simp_all only: if_True simp_thms)
  from T2 t(2) have 2: "set (snd (fst (video_work_set first_run initial))) = set (validated_url_v first_run)"
    "fst (fst (video_work_set first_run initial)) = length (snd (fst (video_work_set first_run initial)))"
    by (simp_all only: if_False simp_thms)
  from 1 2 r show ?thesis by simp
qed

text \<open>
  C4 as stated fails for the channel-stats flow: in the later run the table
  \<^verbatim>\<open>youtube_channel_stats\<close> exists and holds channel \<^verbatim>\<open>x\<close>, \<open>U - P\<close> is \<open>{y}\<close>, and
  the flow resolves both \<^verbatim>\<open>x\<close> and \<^verbatim>\<open>y\<close>.
\<close>

theorem channel_work_set_ignores_persisted:
  "table_exists later_run ''youtube_channel_stats'' \<and>
   snd (fst (channel_work_set later_run initial)) = [''x'', ''y''] \<and>
   set (snippet_channelId later_run) - set (channel_stats_id later_run) = {''y''} \<and>
   set (snd (fst (channel_work_set later_run initial))) \<noteq>
     set (snippet_channelId later_run) - set (channel_stats_id later_run)"
  by (auto simp: channel_work_set_eq later_run_def table_exists_def)

text \<open>
  C5 at a pool of two credentials whose first has no quota left. The request for channel
  \<^verbatim>\<open>y\<close> raises a quota failure, and the channel-stats loop ends after this one round
  with \<^verbatim>\<open>TypeError\<close> (line 229): the pool is not used up, since the second
  credential would have been served, and the exception is not a failure of the request.
  The loop does end, and within the bound (\<open>fetch_loops_bounded\<close> above), but not in
  one of the ways the claim names. The video-snippet loop ends in those ways only; at a
  pool of one credential it ends with the quota failure itself, the pool used up.
\<close>

theorem channel_loop_ends_with_TypeError:
  "channels_list first_key_exhausted 0 ''k0'' ''y'' =
     Raises (HttpError 403 (channels_uri ''y'') ''quotaExceeded'') \<and>
   quota_error (HttpError 403 (channels_uri ''y'') ''quotaExceeded'') \<and>
   fetch_channel two_keys first_key_exhausted ''y'' (initial\<lparr>youtube := ''k0''\<rparr>) =
     (Inl TypeError, initial\<lparr>youtube := ''k0'', calls := 1, current_key := 1\<rparr>) \<and>
   length (credentials two_keys) = 2 \<and>
   channels_list first_key_exhausted 1 ''k1'' ''y'' = Returns (entities [channel_item ''y'']) \<and>
   fetch_video one_key first_key_exhausted ''b'' (initial\<lparr>youtube := ''k0''\<rparr>) =
     (Inl (HttpError 403 (videos_uri ''b'') ''quotaExceeded''),
      initial\<lparr>youtube := ''k0'', calls := 1, current_key := 1\<rparr>) \<and>
   length (credentials one_key) = 1"
  by (simp add: run_defs scene_defs)

text \<open>
  C6 at a failure outside the quota class. The request for video \<^verbatim>\<open>x403y\<close> is
  answered with HTTP 500. The text of the exception holds the URL of the request and
  with it the identifier, so the test of line 158 finds \<^verbatim>\<open>403\<close> in it: the
  video-snippet loop rotates to the second credential and asks again instead of raising
  the exception, and the channel-stats loop raises \<^verbatim>\<open>TypeError\<close> in its place. The
  same answer to the request for video \<^verbatim>\<open>b\<close> is raised unchanged after one request
  (\<open>other_failures_propagate\<close> above).
\<close>

theorem server_error_with_403_in_url_is_rotated:
  "videos_list first_key_server_error 0 ''k0'' ''x403y'' =
     Raises (HttpError 500 (videos_uri ''x403y'') ''Backend Error'') \<and>
   quota_error (HttpError 500 (videos_uri ''x403y'') ''Backend Error'') \<and>
   fetch_video two_keys first_key_server_error ''x403y'' (initial\<lparr>youtube := ''k0''\<rparr>) =
     (Inr (entities [video_item ''x403y'']),
      initial\<lparr>youtube := ''k1'', calls := 2, current_key := 1\<rparr>) \<and>
   fetch_channel two_keys first_key_server_error ''x403y'' (initial\<lparr>youtube := ''k0''\<rparr>) =
     (Inl TypeError, initial\<lparr>youtube := ''k0'', calls := 1, current_key := 1\<rparr>) \<and>
   fetch_video two_keys first_key_server_error ''b'' (initial\<lparr>youtube := ''k0''\<rparr>) =
     (Inl (HttpError 500 (videos_uri ''b'') ''Backend Error''),
      initial\<lparr>youtube := ''k0'', calls := 1\<rparr>)"
  by (simp add: run_defs scene_defs)

text \<open>
  C7. \<^verbatim>\<open>2021-05-01T12:00:00Z\<close> is normalized to \<^verbatim>\<open>2021-05-01 12:00:00\<close>, and every
  string of the form \<^verbatim>\<open>YYYY-MM-DDTHH:MM:SSZ\<close> to its date, a space and its time, of
  the form \<^verbatim>\<open>YYYY-MM-DD HH:MM:SS\<close>. The video-snippet flow writes one record for each
  item of a response, and the record carries the normalized \<^verbatim>\<open>publishedAt\<close> of its
  item; the channel-stats flow writes one record for each item. The text stamped as
  \<^verbatim>\<open>retrieved_at\<close> has the form \<^verbatim>\<open>YYYY-MM-DD HH:MM:SS.mmm\<close>. Every record that
  either flow writes carries such a \<^verbatim>\<open>retrieved_at\<close> field, and every record that the
  video-snippet flow writes a \<^verbatim>\<open>publishedAt\<close> without \<^verbatim>\<open>T\<close> and without a
  closing \<^verbatim>\<open>Z\<close>.
\<close>

theorem timestamps_normalized:
  "normalize_publishedAt ''2021-05-01T12:00:00Z'' = ''2021-05-01 12:00:00'' \<and>
   (matches ''YYYY-MM-DDTHH:MM:SSZ'' s \<longrightarrow>
      normalize_publishedAt s = take 10 s @ '' '' @ take 8 (drop 11 s) \<and>
      matches ''YYYY-MM-DD HH:MM:SS'' (normalize_publishedAt s)) \<and>
   (write_video_items env items st = (Inr u, st') \<longrightarrow>
      (\<exists>new. json_writer st' = json_writer st @ new \<and> list_all2 written_for items new)) \<and>
   (write_channel_items env items st = (Inr u, st') \<longrightarrow>
      (\<exists>new. json_writer st' = json_writer st @ new \<and> length new = length items)) \<and>
   (valid_datetime now \<longrightarrow> matches ''YYYY-MM-DD HH:MM:SS.mmm'' (retrieved_at now)) \<and>
   ((\<forall>t. valid_datetime (utcnow env t)) \<and> list_all retrieved_at_ok (json_writer st) \<longrightarrow>
      list_all retrieved_at_ok (json_writer (snd (collect_video_snippets self env st))) \<and>
      list_all retrieved_at_ok (json_writer (snd (collect_channel_stats self env st)))) \<and>
   (list_all publishedAt_ok (json_writer st) \<longrightarrow>
      list_all publishedAt_ok (json_writer (snd (collect_video_snippets self env st))))"
proof -
  have "normalize_publishedAt ''2021-05-01T12:00:00Z'' = ''2021-05-01 12:00:00''"
    by (simp add: normalize_publishedAt_def rstrip_def replace_char_def)
  moreover have "write_video_items env items st = (Inr u, st') \<longrightarrow>
      (\<exists>new. json_writer st' = json_writer st @ new \<and> list_all2 written_for items new)"
    using write_video_items_written [of env items st u st'] by blast
  moreover have "write_channel_items env items st = (Inr u, st') \<longrightarrow>
      (\<exists>new. json_writer st' = json_writer st @ new \<and> length new = length items)"
    using write_channel_items_written [of env items st u st'] by blast
  ultimately show ?thesis
    using normalize_publishedAt_pattern [of s] retrieved_at_matches [of now]
      video_flow_ok [of env st self] channel_flow_ok [of env st self]
      video_flow_published [of st self env]
    by blast
qed

text \<open>
  The example of the specification, and the later run, in which each flow writes one
  record.
\<close>

theorem timestamps_normalized_witness:
  "matches ''YYYY-MM-DDTHH:MM:SSZ'' ''2021-05-01T12:00:00Z'' \<and>
   matches ''YYYY-MM-DD HH:MM:SS'' (normalize_publishedAt ''2021-05-01T12:00:00Z'') \<and>
   (\<exists>new. json_writer (snd (write_video_items later_run [video_item ''b''] initial)) =
            json_writer initial @ new \<and> list_all2 written_for [video_item ''b''] new) \<and>
   (\<exists>new. json_writer (snd (write_channel_items later_run [channel_item ''x''] initial)) =
            json_writer initial @ new \<and> length new = length [channel_item ''x'']) \<and>
   valid_datetime may_first \<and>
   matches ''YYYY-MM-DD HH:MM:SS.mmm'' (retrieved_at may_first) \<and>
   length (json_writer (snd (collect_video_snippets one_key later_run initial))) = 1 \<and>
   list_all retrieved_at_ok (json_writer (snd (collect_video_snippets one_key later_run initial))) \<and>
   list_all publishedAt_ok (json_writer (snd (collect_video_snippets one_key later_run initial))) \<and>
   length (json_writer (snd (collect_channel_stats one_key later_run initial))) = 1 \<and>
   list_all retrieved_at_ok (json_writer (snd (collect_channel_stats one_key later_run initial)))"
proof -
  let ?v = "snd (write_video_items later_run [video_item ''b''] initial)"
  let ?c = "snd (write_channel_items later_run [channel_item ''x''] initial)"
  have m: "matches ''YYYY-MM-DDTHH:MM:SSZ'' ''2021-05-01T12:00:00Z''"
    by (simp add: matches_def is_digit_def)
  have e: "fst (write_video_items later_run [video_item ''b''] initial) = Inr ()"
    "fst (write_channel_items later_run [channel_item ''x''] initial) = Inr ()"
    by (simp_all add: run_defs scene_defs)
  have wv: "write_video_items later_run [video_item ''b''] initial = (Inr (), ?v)"
    and wc: "write_channel_items later_run [channel_item ''x''] initial = (Inr (), ?c)"
    using e by (simp_all only: prod_eq_iff fst_conv snd_conv simp_thms)
  have d: "valid_datetime may_first"
    by (simp add: valid_datetime_def may_first_def)
  have w: "(\<forall>t. valid_datetime (utcnow later_run t)) \<and> list_all retrieved_at_ok (json_writer initial)"
    using d by (simp add: later_run_def initial_def)
  have p: "list_all publishedAt_ok (json_writer initial)"
    by (simp add: initial_def)
  have l: "length (json_writer (snd (collect_video_snippets one_key later_run initial))) = 1"
    "length (json_writer (snd (collect_channel_stats one_key later_run initial))) = 1"
    by (simp_all add: run_defs scene_defs)
  note T1 = timestamps_normalized [of "''2021-05-01T12:00:00Z''" later_run "[video_item ''b'']"
      initial "()" ?v may_first one_key]
  note T2 = timestamps_normalized [of "''2021-05-01T12:00:00Z''" later_run "[channel_item ''x'']"
      initial "()" ?c may_first one_key]
  note 1 = T1 [THEN conjunct2, THEN conjunct1, THEN mp, OF m, THEN conjunct2]
  note 2 = T1 [THEN conjunct2, THEN conjunct2, THEN conjunct1, THEN mp, OF wv]
  note 3 = T2 [THEN conjunct2, THEN conjunct2, THEN conjunct2, THEN conjunct1, THEN mp, OF wc]
  note 4 = T1 [THEN conjunct2, THEN conjunct2, THEN conjunct2, THEN conjunct2, THEN conjunct1,
      THEN mp, OF d]
  note 5 = T1 [THEN conjunct2, THEN conjunct2, THEN conjunct2, THEN conjunct2, THEN conjunct2,
      THEN conjunct1, THEN mp, OF w]
  note 6 = T1 [THEN conjunct2, THEN conjunct2, THEN conjunct2, THEN conjunct2, THEN conjunct2,
      THEN conjunct2, THEN mp, OF p]
  from m 1 2 3 d 4 l(1) 5 [THEN conjunct1] 6 l(2) 5 [THEN conjunct2] show ?thesis
    by (intro conjI)
qed

text \<open>
  C8. When the response for an identifier has an empty entity list, nothing is written:
  the batch and the number of its records are unchanged, and the loop goes on with the
  remaining identifiers, in both flows.
\<close>

theorem empty_result_writes_nothing:
  "(fetch_video self env video_id (st\<lparr>num_videos := num_videos st + 1\<rparr>) = (Inr response, st1) \<and>
      response_items response = Inr [] \<longrightarrow>
      json_writer st1 = json_writer st \<and>
      length (json_writer st1) = length (json_writer st) \<and>
      video_rows self env (video_id # rest) st = video_rows self env rest st1) \<and>
   (fetch_channel self env channel_id (st\<lparr>num_channels := num_channels st + 1\<rparr>) = (Inr response, st1) \<and>
      response_items response = Inr [] \<longrightarrow>
      json_writer st1 = json_writer st \<and>
      length (json_writer st1) = length (json_writer st) \<and>
      channel_rows self env (channel_id # rest) st = channel_rows self env rest st1)"
  by (auto dest: fetch_video_frame fetch_channel_frame)

text \<open>
  In the first run the API has no entity for video \<^verbatim>\<open>c\<close> and none for any channel.
\<close>

theorem empty_result_writes_nothing_witness:
  "fetch_video one_key first_run ''c''
     (initial\<lparr>youtube := ''k0'', num_videos := num_videos (initial\<lparr>youtube := ''k0''\<rparr>) + 1\<rparr>) =
     (Inr (entities []), initial\<lparr>youtube := ''k0'', num_videos := 1, calls := 1\<rparr>) \<and>
   response_items (entities []) = Inr [] \<and>
   json_writer (initial\<lparr>youtube := ''k0'', num_videos := 1, calls := 1\<rparr>) =
     json_writer (initial\<lparr>youtube := ''k0''\<rparr>) \<and>
   video_rows one_key first_run [''c'', ''d''] (initial\<lparr>youtube := ''k0''\<rparr>) =
     video_rows one_key first_run [''d''] (initial\<lparr>youtube := ''k0'', num_videos := 1, calls := 1\<rparr>) \<and>
   channel_rows one_key first_run [''y'', ''z''] (initial\<lparr>youtube := ''k0''\<rparr>) =
     channel_rows one_key first_run [''z''] (initial\<lparr>youtube := ''k0'', num_channels := 1, calls := 1\<rparr>)"
proof -
  let ?st = "initial\<lparr>youtube := ''k0''\<rparr>"
  let ?v = "initial\<lparr>youtube := ''k0'', num_videos := 1, calls := 1\<rparr>"
  let ?c = "initial\<lparr>youtube := ''k0'', num_channels := 1, calls := 1\<rparr>"
  have v: "fetch_video one_key first_run ''c'' (?st\<lparr>num_videos := num_videos ?st + 1\<rparr>) =
      (Inr (entities []), ?v)"
    by (simp add: run_defs scene_defs)
  have c: "fetch_channel one_key first_run ''y'' (?st\<lparr>num_channels := num_channels ?st + 1\<rparr>) =
      (Inr (entities []), ?c)"
    by (simp add: run_defs scene_defs)
  have e: "response_items (entities []) = Inr []"
    by (simp add: response_items_def entities_def iterate_def)
  note T1 = empty_result_writes_nothing [of one_key first_run "''c''" ?st "entities []" ?v "[''d'']"
      "''y''"]
  note T2 = empty_result_writes_nothing [of one_key first_run "''c''" ?st "entities []" ?c "[''z'']"
      "''y''"]
  note 1 = T1 [THEN conjunct1, THEN mp, OF conjI [OF v e]]
  note 2 = T2 [THEN conjunct2, THEN mp, OF conjI [OF c e]]
  from v e 1 [THEN conjunct1] 1 [THEN conjunct2, THEN conjunct2] 2 [THEN conjunct2, THEN conjunct2]
  show ?thesis by (intro conjI)
qed

text \<open>
  C9. A channel-stats run that succeeds has compressed and uploaded its batch and then,
  in this order, dropped \<^verbatim>\<open>youtube_channel_stats\<close>, created it again and repaired its
  partitions; a channel-stats run that fails has done none of these. A video-snippet run
  that succeeds has uploaded its batch and then sent the create-if-absent statement, once;
  no video-snippet run, successful or not, drops a table.
\<close>

theorem registration_follows_upload:
  "(collect_channel_stats self env st = (Inr u, st') \<longrightarrow>
      (\<exists>key. trace st' = trace st @
         [Query_athena_and_download [SELECT_DISTINCT_CHANNEL],
          Query_athena_and_get_result [SELECT_COUNT_DISTINCT_CHANNEL],
          Compress,
          Upload_file (s3_data self) key,
          Query_athena_and_wait [DROP_TABLE_IF_EXISTS ''youtube_channel_stats''],
          Query_athena_and_wait [CREATE_CHANNEL_STATS_JSON (s3_data self)],
          Query_athena_and_wait [MSCK_REPAIR_TABLE ''youtube_channel_stats'']])) \<and>
   (collect_channel_stats self env st = (Inl e, st') \<longrightarrow>
      trace st' = trace st @
         [Query_athena_and_download [SELECT_DISTINCT_CHANNEL],
          Query_athena_and_get_result [SELECT_COUNT_DISTINCT_CHANNEL]]) \<and>
   (collect_video_snippets self env st = (Inr u, st') \<longrightarrow>
      (\<exists>count_query query key. trace st' = trace st @
         [Table_exists ''youtube_video_snippet'',
          Query_athena_and_get_result count_query,
          Query_athena_and_download query,
          Compress,
          Upload_file (s3_data self) key,
          Query_athena_and_wait [CREATE_VIDEO_SNIPPET_JSON (s3_data self)]])) \<and>
   (collect_video_snippets self env st = (r, st') \<longrightarrow>
      (\<exists>added. trace st' = trace st @ added \<and>
         (\<forall>name. Query_athena_and_wait [DROP_TABLE_IF_EXISTS name] \<notin> set added)))"
proof -
  have a: "collect_channel_stats self env st = (Inr u, st') \<longrightarrow>
      (\<exists>key. trace st' = trace st @
         [Query_athena_and_download [SELECT_DISTINCT_CHANNEL],
          Query_athena_and_get_result [SELECT_COUNT_DISTINCT_CHANNEL],
          Compress,
          Upload_file (s3_data self) key,
          Query_athena_and_wait [DROP_TABLE_IF_EXISTS ''youtube_channel_stats''],
          Query_athena_and_wait [CREATE_CHANNEL_STATS_JSON (s3_data self)],
          Query_athena_and_wait [MSCK_REPAIR_TABLE ''youtube_channel_stats'']])"
    by (auto dest!: channel_flow_trace simp: channel_work_set_eq)
  have b: "collect_channel_stats self env st = (Inl e, st') \<longrightarrow>
      trace st' = trace st @
         [Query_athena_and_download [SELECT_DISTINCT_CHANNEL],
          Query_athena_and_get_result [SELECT_COUNT_DISTINCT_CHANNEL]]"
    by (auto dest!: channel_flow_trace simp: channel_work_set_eq)
  have c: "collect_video_snippets self env st = (Inr u, st') \<longrightarrow>
      (\<exists>count_query query key. trace st' = trace st @
         [Table_exists ''youtube_video_snippet'',
          Query_athena_and_get_result count_query,
          Query_athena_and_download query,
          Compress,
          Upload_file (s3_data self) key,
          Query_athena_and_wait [CREATE_VIDEO_SNIPPET_JSON (s3_data self)]])"
    by (auto dest!: video_flow_trace simp: video_work_set_eq)
  have d: "collect_video_snippets self env st = (r, st') \<longrightarrow>
      (\<exists>added. trace st' = trace st @ added \<and>
         (\<forall>name. Query_athena_and_wait [DROP_TABLE_IF_EXISTS name] \<notin> set added))"
    by (cases r) (auto dest!: video_flow_trace simp: video_work_set_eq)
  from a b c d show ?thesis by blast
qed

text \<open>
  The later run, in which both flows succeed, and the run with an exhausted first key, in
  which the channel-stats flow fails.
\<close>

theorem registration_follows_upload_witness:
  "(\<exists>key. trace (snd (collect_channel_stats one_key later_run initial)) = trace initial @
      [Query_athena_and_download [SELECT_DISTINCT_CHANNEL],
       Query_athena_and_get_result [SELECT_COUNT_DISTINCT_CHANNEL],
       Compress,
       Upload_file (s3_data one_key) key,
       Query_athena_and_wait [DROP_TABLE_IF_EXISTS ''youtube_channel_stats''],
       Query_athena_and_wait [CREATE_CHANNEL_STATS_JSON (s3_data one_key)],
       Query_athena_and_wait [MSCK_REPAIR_TABLE ''youtube_channel_stats'']]) \<and>
   fst (collect_channel_stats two_keys first_key_exhausted initial) = Inl TypeError \<and>
   trace (snd (collect_channel_stats two_keys first_key_exhausted initial)) = trace initial @
      [Query_athena_and_download [SELECT_DISTINCT_CHANNEL],
       Query_athena_and_get_result [SELECT_COUNT_DISTINCT_CHANNEL]] \<and>
   (\<exists>count_query query key.
      trace (snd (collect_video_snippets one_key later_run initial)) = trace initial @
        [Table_exists ''youtube_video_snippet'',
         Query_athena_and_get_result count_query,
         Query_athena_and_download query,
         Compress,
         Upload_file (s3_data one_key) key,
         Query_athena_and_wait [CREATE_VIDEO_SNIPPET_JSON (s3_data one_key)]]) \<and>
   (\<exists>added. trace (snd (collect_video_snippets one_key later_run initial)) = trace initial @ added \<and>
      (\<forall>name. Query_athena_and_wait [DROP_TABLE_IF_EXISTS name] \<notin> set added))"
proof -
  let ?c = "snd (collect_channel_stats one_key later_run initial)"
  let ?f = "snd (collect_channel_stats two_keys first_key_exhausted initial)"
  let ?v = "snd (collect_video_snippets one_key later_run initial)"
  have e: "fst (collect_channel_stats one_key later_run initial) = Inr ()"
    "fst (collect_channel_stats two_keys first_key_exhausted initial) = Inl TypeError"
    "fst (collect_video_snippets one_key later_run initial) = Inr ()"
    by (simp_all add: run_defs scene_defs)
  have c: "collect_channel_stats one_key later_run initial = (Inr (), ?c)"
    and f: "collect_channel_stats two_keys first_key_exhausted initial = (Inl TypeError, ?f)"
    and v: "collect_video_snippets one_key later_run initial = (Inr (), ?v)"
    using e by (simp_all only: prod_eq_iff fst_conv snd_conv simp_thms)
  note g = e(2)
  note T1 = registration_follows_upload [of one_key later_run initial "()" ?c TypeError "Inr ()"]
  note T2 = registration_follows_upload [of two_keys first_key_exhausted initial "()" ?f TypeError
      "Inr ()"]
  note T3 = registration_follows_upload [of one_key later_run initial "()" ?v TypeError "Inr ()"]
  note 1 = T1 [THEN conjunct1, THEN mp, OF c]
  note 2 = T2 [THEN conjunct2, THEN conjunct1, THEN mp, OF f]
  note 3 = T3 [THEN conjunct2, THEN conjunct2, THEN conjunct1, THEN mp, OF v]
  note 4 = T3 [THEN conjunct2, THEN conjunct2, THEN conjunct2, THEN mp, OF v]
  from 1 g 2 3 4 show ?thesis by (intro conjI)
qed

text \<open>
  C10. The normalization of \<^verbatim>\<open>publishedAt\<close> (strip the trailing \<^verbatim>\<open>Z\<close>s, then
  replace every \<^verbatim>\<open>T\<close> by a space) is idempotent: on every string, applying it
  twice gives what applying it once gives.
\<close>

theorem normalize_publishedAt_idempotent:
  "normalize_publishedAt (normalize_publishedAt s) = normalize_publishedAt s"
proof -
  let ?r = "rstrip ''Z'' s"
  let ?n = "replace_char (CHR ''T'') (CHR '' '') ?r"
  have "?n = [] \<or> last ?n \<notin> set ''Z''"
  proof (cases "?r = []")
    case True
    then show ?thesis by (simp add: replace_char_def)
  next
    case False
    with rstrip_last [of "''Z''" s] have "last ?r \<noteq> CHR ''Z''" by simp
    with False show ?thesis by (simp add: replace_char_last)
  qed
  then have "rstrip ''Z'' ?n = ?n" by (rule rstrip_fixed)
  then show ?thesis
    by (simp add: normalize_publishedAt_def replace_char_twice)
qed

end
